theory Spec2Isabelle
  imports Complex_Main "HOL-Library.AList"
begin

section \<open>Batch simulations of the KSE parameter-estimation experiment\<close>

text \<open>
  A shallow embedding of \<^verbatim>\<open>batch_simulations.py\<close>: the metric utilities, the per-run
  simulation loop, the run wrapper and the \<^verbatim>\<open>BatchSimulator\<close> methods
  \<^verbatim>\<open>run_batch\<close> and \<^verbatim>\<open>run_simulations_low\<close>.

  Python dictionaries keep insertion order, so a dictionary is an association list with
  distinct keys: \<open>d[k] = v\<close> replaces the value of an existing key in place and appends a
  new key at the end, which is \<^const>\<open>AList.update\<close>. Exceptions are values of
  \<open>py_error\<close>; a function that can raise returns \<open>py_error + 'a\<close>.
\<close>

subsection \<open>Dictionaries and exceptions\<close>

datatype py_error =
    RuntimeWarning string
  | ValueError string
  | ZeroDivisionError
  | TypeError
  | IndexError
  | AttributeError string
  | KeyboardInterrupt
  | SystemExit

type_synonym 'v dict = "(string \<times> 'v) list"

definition dict_in :: "string \<Rightarrow> 'v dict \<Rightarrow> bool" where
  "dict_in k d = (map_of d k \<noteq> None)"

definition dict_set :: "'v dict \<Rightarrow> string \<Rightarrow> 'v \<Rightarrow> 'v dict" where
  "dict_set d k v = AList.update k v d"

definition bind_err :: "py_error + 'a \<Rightarrow> ('a \<Rightarrow> py_error + 'b) \<Rightarrow> py_error + 'b" where
  "bind_err m f = (case m of Inl e \<Rightarrow> Inl e | Inr x \<Rightarrow> f x)"

text \<open>
  Python's \<open>/\<close> on the stored parameter values depends on their run-time types (float,
  int, numpy scalar) and can raise, so the grid expander takes it as a parameter
  \<open>truediv\<close>. \<open>py_truediv\<close> is its exact-arithmetic instance on numbers, used to
  evaluate examples: a zero divisor raises \<open>ZeroDivisionError\<close>.
\<close>

definition py_truediv :: "real \<Rightarrow> real \<Rightarrow> py_error + real" where
  "py_truediv a b = (if b = 0 then Inl ZeroDivisionError else Inr (a / b))"

subsection \<open>\<^verbatim>\<open>itertools.product\<close>\<close>

text \<open>
  The standard library documents \<^verbatim>\<open>itertools.product(*iterables)\<close> by the code
  \<^verbatim>\<open>
    result = [[]]
    for pool in pools:
        result = [x+[y] for x in result for y in pool]
  \<close>
  which is the left fold below.
\<close>

definition product_step :: "'a list list \<Rightarrow> 'a list \<Rightarrow> 'a list list" where
  "product_step result pool = concat (map (\<lambda>x. map (\<lambda>y. x @ [y]) pool) result)"

definition itertools_product :: "'a list list \<Rightarrow> 'a list list" where
  "itertools_product pools = foldl product_step [[]] pools"

subsection \<open>The grid expander: \<^verbatim>\<open>BatchSimulator.run_batch\<close>, lines 97 to 120\<close>

text \<open>
  \<^verbatim>\<open>
    input_params = deepcopy(base_params)
    for c, p in zip(choice, params_to_vary):
        input_params[p] = c
  \<close>
  Values are immutable here, so the deep copy of the base set is the base set itself.
\<close>

definition overlay :: "'v dict \<Rightarrow> string list \<Rightarrow> 'v list \<Rightarrow> 'v dict" where
  "overlay base_params params_to_vary choice =
     foldl (\<lambda>input_params (c, p). dict_set input_params p c) base_params (zip choice params_to_vary)"

text \<open>
  \<^verbatim>\<open>
    if 'mu_scale' in input_params:
        input_params['mu'] = input_params['mu_scale'] / input_params['dt']
  \<close>
  with \<open>scale\<close> and \<open>raw\<close> for the two key names; it runs only where \<open>dt\<close> is a key.
\<close>

definition derive_scaled ::
  "('v \<Rightarrow> 'v \<Rightarrow> py_error + 'v) \<Rightarrow> string \<Rightarrow> string \<Rightarrow> 'v \<Rightarrow> 'v dict \<Rightarrow> py_error + 'v dict" where
  "derive_scaled truediv scale raw dt input_params =
     (case map_of input_params scale of
        None \<Rightarrow> Inr input_params
      | Some s \<Rightarrow> bind_err (truediv s dt) (\<lambda>q. Inr (dict_set input_params raw q)))"

definition derive :: "('v \<Rightarrow> 'v \<Rightarrow> py_error + 'v) \<Rightarrow> 'v dict \<Rightarrow> py_error + 'v dict" where
  "derive truediv input_params =
     (case map_of input_params ''dt'' of
        None \<Rightarrow> Inr input_params
      | Some dt \<Rightarrow>
          bind_err (derive_scaled truediv ''mu_scale'' ''mu'' dt input_params)
            (derive_scaled truediv ''alpha_scale'' ''alpha'' dt))"

definition expand_choice ::
  "('v \<Rightarrow> 'v \<Rightarrow> py_error + 'v) \<Rightarrow> 'v dict \<Rightarrow> string list \<Rightarrow> 'v list \<Rightarrow> py_error + 'v dict" where
  "expand_choice truediv base_params params_to_vary choice =
     derive truediv (overlay base_params params_to_vary choice)"

text \<open>The \<^verbatim>\<open>for choice in itertools.product(...)\<close> loop; the first exception ends it.\<close>

fun expand_loop ::
  "('v \<Rightarrow> 'v \<Rightarrow> py_error + 'v) \<Rightarrow> 'v dict \<Rightarrow> string list \<Rightarrow> 'v list list \<Rightarrow> 'v dict list
     \<Rightarrow> py_error + 'v dict list" where
  "expand_loop truediv base_params params_to_vary [] param_list = Inr param_list"
| "expand_loop truediv base_params params_to_vary (choice # choices) param_list =
     bind_err (expand_choice truediv base_params params_to_vary choice)
       (\<lambda>input_params.
          expand_loop truediv base_params params_to_vary choices (param_list @ [input_params]))"

definition run_batch_param_list ::
  "('v \<Rightarrow> 'v \<Rightarrow> py_error + 'v) \<Rightarrow> 'v dict \<Rightarrow> 'v list dict \<Rightarrow> py_error + 'v dict list" where
  "run_batch_param_list truediv base_params ranges =
     (if length ranges = 0 then
        Inl (RuntimeWarning ''No parameter ranges specified - nothing to do!'')
      else
        let params_to_vary = map fst ranges in
        if dict_in ''mu_scale'' base_params \<and> dict_in ''mu'' ranges then
          Inl (ValueError ''Cannot both set mu_scale and vary mu!'')
        else if dict_in ''alpha_scale'' base_params \<and> dict_in ''alpha'' ranges then
          Inl (ValueError ''Cannot both set alpha_scale and vary alpha!'')
        else
          expand_loop truediv base_params params_to_vary
            (itertools_product (map (\<lambda>p. the (map_of ranges p)) params_to_vary)) [])"

text \<open>
  The order that the claims name. \<open>mixed_radix sizes idx\<close> writes the position \<open>idx\<close> in
  the mixed radix given by the axis sizes, the last axis being the least significant
  digit; \<open>pick pools js\<close> takes from every axis the value at its digit.
\<close>

fun mixed_radix :: "nat list \<Rightarrow> nat \<Rightarrow> nat list" where
  "mixed_radix [] idx = []"
| "mixed_radix (n # ns) idx = (idx div prod_list ns) # mixed_radix ns (idx mod prod_list ns)"

definition pick :: "'a list list \<Rightarrow> nat list \<Rightarrow> 'a list" where
  "pick pools js = map (\<lambda>(pool, j). pool ! j) (zip pools js)"

subsection \<open>The batch orchestrator: \<^verbatim>\<open>BatchSimulator.run_simulations_low\<close>\<close>

text \<open>
  An index entry is the dictionary literal of the source, with its keys as written
  there. The effects of the orchestrator are logged in program order: creating the pool,
  \<^verbatim>\<open>np.savez\<close>, \<^verbatim>\<open>index.append\<close>, \<^verbatim>\<open>print\<close> and \<^verbatim>\<open>json.dump\<close> to the index file.
\<close>

datatype 'v entry_val = EBool bool | EParams "'v dict" | EStr string

type_synonym 'v index_entry = "'v entry_val dict"

datatype ('v, 'r) event =
    PrintParamList "'v dict list"
  | PoolCreate int
  | Savez string 'r
  | IndexAppend "'v index_entry"
  | PrintMsg string
  | JsonDump string "'v index_entry list"

text \<open>The decimal text of a non-negative integer, as an f-string writes it.\<close>

definition digit_char :: "nat \<Rightarrow> char" where
  "digit_char d = ''0123456789'' ! d"

fun str_nat :: "nat \<Rightarrow> string" where
  "str_nat n = (if n < 10 then [digit_char n] else str_nat (n div 10) @ [digit_char (n mod 10)])"

declare str_nat.simps [simp del]

record ('v, 'r) loop_state =
  cur_i :: nat
  cur_index :: "'v index_entry list"
  cur_trace :: "('v, 'r) event list"

definition success_entry :: "'v dict \<Rightarrow> string \<Rightarrow> 'v index_entry" where
  "success_entry params filename =
     [(''succeded'', EBool True), (''params'', EParams params), (''filename'', EStr filename)]"

definition failure_entry :: "'v dict \<Rightarrow> 'v index_entry" where
  "failure_entry params =
     [(''succeded'', EBool False), (''params'', EParams params), (''error'', EStr [])]"

definition results_filename :: "string \<Rightarrow> nat \<Rightarrow> string" where
  "results_filename outdir i = outdir @ ''/results_'' @ str_nat i @ ''.npz''"

definition completed_msg :: "nat \<Rightarrow> nat \<Rightarrow> string" where
  "completed_msg k n =
     ''Completed '' @ str_nat k @ '' of '' @ str_nat n @ '' simulations, saving index file.''"

text \<open>
  The writes of the orchestrator can raise: \<^verbatim>\<open>np.savez\<close> on an artifact, and opening the
  index file and \<^verbatim>\<open>json.dump\<close> on the index (a \<open>TypeError\<close> for a parameter value that
  JSON cannot write, an \<open>OSError\<close> of the file system). \<open>savez filename result\<close> and
  \<open>json_dump index_file index\<close> are the exception of the write, if any; \<open>quiet\<close> is the
  write that succeeds. The log holds the effects that completed.
\<close>

definition quiet :: "string \<Rightarrow> 'a \<Rightarrow> py_error option" where
  "quiet file content = None"

text \<open>
  Lines 148 to 152: the counter is incremented before the test \<^verbatim>\<open>(i+1) % 10 == 0\<close>; the
  message is printed, then the index file is written.
\<close>

definition checkpoint ::
  "(string \<Rightarrow> 'v index_entry list \<Rightarrow> py_error option) \<Rightarrow> string \<Rightarrow> nat \<Rightarrow> ('v, 'r) loop_state
     \<Rightarrow> ('v, 'r) loop_state \<times> py_error option" where
  "checkpoint json_dump index_file n_params st1 =
     (let st2 = st1\<lparr>cur_i := cur_i st1 + 1\<rparr> in
      if (cur_i st2 + 1) mod 10 = 0 then
        let st3 = st2\<lparr>cur_trace := cur_trace st2 @
                        [PrintMsg (completed_msg (cur_i st2 + 1) n_params)]\<rparr>
        in (case json_dump index_file (cur_index st3) of
              Some e \<Rightarrow> (st3, Some e)
            | None \<Rightarrow>
                (st3\<lparr>cur_trace := cur_trace st3 @ [JsonDump index_file (cur_index st3)]\<rparr>, None))
      else (st2, None))"

text \<open>
  The body of the \<^verbatim>\<open>for result in pool.imap(...)\<close> loop, lines 141 to 152:
  \<^verbatim>\<open>param_list[i]\<close> raises \<open>IndexError\<close> out of range. The result is the state when the
  body ends, and the exception that ended it, if any.
\<close>

definition loop_body ::
  "string \<Rightarrow> string \<Rightarrow> (string \<Rightarrow> 'r \<Rightarrow> py_error option) \<Rightarrow>
     (string \<Rightarrow> 'v index_entry list \<Rightarrow> py_error option) \<Rightarrow> 'v dict list \<Rightarrow>
     ('v, 'r) loop_state \<Rightarrow> 'r option \<Rightarrow> ('v, 'r) loop_state \<times> py_error option" where
  "loop_body outdir index_file savez json_dump param_list st result =
     (if cur_i st < length param_list then
        let params = param_list ! cur_i st in
        (case result of
           Some r \<Rightarrow>
             let filename = results_filename outdir (cur_i st) in
             (case savez filename r of
                Some e \<Rightarrow> (st, Some e)
              | None \<Rightarrow>
                  let entry = success_entry params filename
                  in checkpoint json_dump index_file (length param_list)
                       (st\<lparr>cur_index := cur_index st @ [entry],
                          cur_trace := cur_trace st @ [Savez filename r, IndexAppend entry]\<rparr>))
         | None \<Rightarrow>
             let entry = failure_entry params
             in checkpoint json_dump index_file (length param_list)
                  (st\<lparr>cur_index := cur_index st @ [entry],
                     cur_trace := cur_trace st @ [IndexAppend entry]\<rparr>))
      else (st, Some IndexError))"

text \<open>
  The loop over what \<^verbatim>\<open>pool.imap\<close> yields: for each task, in the order of the tasks, the
  value that the worker returned (a result or \<^verbatim>\<open>None\<close>), or the exception that left the
  worker, which \<^verbatim>\<open>imap\<close> raises again in the orchestrator when the loop asks for it.
\<close>

fun imap_loop ::
  "string \<Rightarrow> string \<Rightarrow> (string \<Rightarrow> 'r \<Rightarrow> py_error option) \<Rightarrow>
     (string \<Rightarrow> 'v index_entry list \<Rightarrow> py_error option) \<Rightarrow> 'v dict list \<Rightarrow>
     (py_error + 'r option) list \<Rightarrow> ('v, 'r) loop_state
     \<Rightarrow> ('v, 'r) loop_state \<times> py_error option" where
  "imap_loop outdir index_file savez json_dump param_list [] st = (st, None)"
| "imap_loop outdir index_file savez json_dump param_list (Inl e # results) st = (st, Some e)"
| "imap_loop outdir index_file savez json_dump param_list (Inr result # results) st =
     (case loop_body outdir index_file savez json_dump param_list st result of
        (st1, Some e) \<Rightarrow> (st1, Some e)
      | (st1, None) \<Rightarrow> imap_loop outdir index_file savez json_dump param_list results st1)"

text \<open>
  \<open>func\<close> is \<^verbatim>\<open>partial(simulation_wrapper, ...)\<close> as the pool runs it: \<open>func p\<close> is what
  \<^verbatim>\<open>pool.imap\<close> yields or raises for the task \<open>p\<close>. \<^verbatim>\<open>mp.Pool(processes)\<close> raises
  \<open>ValueError\<close> below one process. \<open>cpu_count\<close> is \<^verbatim>\<open>mp.cpu_count()\<close>. The result is the
  log of effects and the exception that ended the call, if any.
\<close>

definition all_completed_msg :: "nat \<Rightarrow> string" where
  "all_completed_msg n = ''Completed all '' @ str_nat n @ '' simulations, saving index file.''"

definition run_simulations_low ::
  "string \<Rightarrow> int \<Rightarrow> ('v dict \<Rightarrow> py_error + 'r option) \<Rightarrow> (string \<Rightarrow> 'r \<Rightarrow> py_error option) \<Rightarrow>
     (string \<Rightarrow> 'v index_entry list \<Rightarrow> py_error option) \<Rightarrow> 'v dict list \<Rightarrow> int option
     \<Rightarrow> ('v, 'r) event list \<times> py_error option" where
  "run_simulations_low outdir cpu_count func savez json_dump param_list n_jobs =
     (let index_file = outdir @ ''/index.json'';
          n_jobs1 = (case n_jobs of None \<Rightarrow> 3 * cpu_count div 4 | Some n \<Rightarrow> n);
          n_simulations = int (length param_list);
          processes = min (max 1 n_jobs1) n_simulations
      in if processes < 1 then
           ([], Some (ValueError ''Number of processes must be at least 1''))
         else
           case imap_loop outdir index_file savez json_dump param_list (map func param_list)
                  \<lparr>cur_i = 0, cur_index = [], cur_trace = [PoolCreate processes]\<rparr> of
             (st, Some e) \<Rightarrow> (cur_trace st, Some e)
           | (st, None) \<Rightarrow>
               let tr = cur_trace st @ [PrintMsg (all_completed_msg (length param_list))]
               in (case json_dump index_file (cur_index st) of
                     Some e \<Rightarrow> (tr, Some e)
                   | None \<Rightarrow> (tr @ [JsonDump index_file (cur_index st)], None)))"

text \<open>
  \<^verbatim>\<open>run_batch(self, base_params, ranges, grid, n_jobs)\<close>: the parameter list is built,
  printed and handed to \<^verbatim>\<open>self.run_simulations_low(param_list)\<close>.
\<close>

definition run_batch ::
  "('v \<Rightarrow> 'v \<Rightarrow> py_error + 'v) \<Rightarrow> string \<Rightarrow> int \<Rightarrow> ('v dict \<Rightarrow> py_error + 'r option) \<Rightarrow>
     (string \<Rightarrow> 'r \<Rightarrow> py_error option) \<Rightarrow> (string \<Rightarrow> 'v index_entry list \<Rightarrow> py_error option) \<Rightarrow>
     'v dict \<Rightarrow> 'v list dict \<Rightarrow> bool \<Rightarrow> int option \<Rightarrow> ('v, 'r) event list \<times> py_error option" where
  "run_batch truediv outdir cpu_count func savez json_dump base_params ranges grid n_jobs =
     (case run_batch_param_list truediv base_params ranges of
        Inl e \<Rightarrow> ([], Some e)
      | Inr param_list \<Rightarrow>
          (case run_simulations_low outdir cpu_count func savez json_dump param_list None of
             (tr, err) \<Rightarrow> (PrintParamList param_list # tr, err)))"

subsection \<open>Metric utilities: \<^verbatim>\<open>fourier_projector\<close> and \<^verbatim>\<open>l2_norm\<close>\<close>

text \<open>
  \<^verbatim>\<open>mod_spec[modes:] = 0\<close> on a copy of \<open>spec\<close>: a negative start of the slice counts
  from the end, and the start is clamped to the length.
\<close>

definition zero_from :: "complex list \<Rightarrow> int \<Rightarrow> complex list" where
  "zero_from spec modes =
     (let n = int (length spec);
          start = nat (if modes < 0 then max 0 (n + modes) else min modes n)
      in take start spec @ replicate (length spec - start) 0)"

text \<open>
  \<^verbatim>\<open>np.fft.irfft\<close> in exact arithmetic, from numpy's documentation: \<open>m\<close> coefficients of
  a Hermitian-symmetric spectrum give \<open>n = 2 (m - 1)\<close> real samples, the inverse discrete
  Fourier transform of the spectrum; fewer than two coefficients raise \<open>ValueError\<close>.
\<close>

definition irfft :: "complex list \<Rightarrow> py_error + real list" where
  "irfft a =
     (let m = length a in
      if m < 2 then Inl (ValueError ''Invalid number of FFT data points specified.'')
      else
        let n = 2 * (m - 1) in
        Inr (map (\<lambda>k. (Re (a ! 0)
                        + sum_list (map (\<lambda>j. 2 * Re (a ! j * cis (2 * pi * real j * real k / real n)))
                                     [1..<m - 1])
                        + Re (a ! (m - 1)) * (- 1) ^ k) / real n)
               [0..<n]))"

definition fourier_projector :: "complex list \<Rightarrow> int \<Rightarrow> py_error + real list" where
  "fourier_projector spec modes = (let mod_spec = zero_from spec modes in irfft mod_spec)"

text \<open>Applying the projection to its own output, read again as an array of coefficients.\<close>

definition project_twice :: "complex list \<Rightarrow> int \<Rightarrow> py_error + real list" where
  "project_twice spec modes =
     bind_err (fourier_projector spec modes)
       (\<lambda>once. fourier_projector (map complex_of_real once) modes)"

definition l2_norm :: "real list \<Rightarrow> real" where
  "l2_norm x = sqrt (sum_list (map (\<lambda>v. \<bar>v\<bar> ^ 2) x))"

text \<open>
  \<^verbatim>\<open>target - projected_state\<close> on numpy arrays: elementwise on equal shapes, a
  one-element operand is broadcast, any other pair of shapes raises \<open>ValueError\<close>.
\<close>

definition np_sub :: "real list \<Rightarrow> real list \<Rightarrow> py_error + real list" where
  "np_sub x y =
     (if length x = length y then Inr (map (\<lambda>(a, b). a - b) (zip x y))
      else if length x = 1 then Inr (map (\<lambda>b. hd x - b) y)
      else if length y = 1 then Inr (map (\<lambda>a. a - hd y) x)
      else Inl (ValueError ''operands could not be broadcast together''))"

subsection \<open>The per-run simulation loop: \<^verbatim>\<open>run_simulation\<close>\<close>

text \<open>
  The solver classes \<^verbatim>\<open>KS\<close> and \<^verbatim>\<open>KSAssim\<close> come from the module \<^verbatim>\<open>KS_order\<close>, which is
  not part of the file. The loop uses them through the operations below, each of which
  can raise; \<open>'t\<close> is the state of the reference trajectory and \<open>'a\<close> the state of the
  assimilating one.
\<close>

record ('t, 'a) solver =
  ks_xspec :: "'t \<Rightarrow> complex list"
  ks_getattr :: "'t \<Rightarrow> string \<Rightarrow> py_error + real"
  ks_advance :: "'t \<Rightarrow> py_error + 't"
  assim_xspec :: "'a \<Rightarrow> complex list"
  assim_getattr :: "'a \<Rightarrow> string \<Rightarrow> py_error + real"
  assim_error :: "'a \<Rightarrow> 't \<Rightarrow> py_error + real"
  assim_set_target :: "'a \<Rightarrow> real list \<Rightarrow> py_error + 'a"
  assim_advance :: "'a \<Rightarrow> py_error + 'a"

record ('t, 'a) sim_state =
  true_ks :: 't
  assimilator :: 'a
  interp_errors :: "real list"
  true_errors :: "real list"
  param_errors :: "real list dict"

text \<open>
  \<^verbatim>\<open>
    for p in param_errors:
        param_errors[p].append(np.abs(getattr(assimilator, p)-getattr(true,p)))
  \<close>
\<close>

fun append_param_errors ::
  "('t, 'a) solver \<Rightarrow> 'a \<Rightarrow> 't \<Rightarrow> real list dict \<Rightarrow> py_error + real list dict" where
  "append_param_errors S asm tru [] = Inr []"
| "append_param_errors S asm tru ((p, arr) # rest) =
     bind_err (assim_getattr S asm p) (\<lambda>x.
     bind_err (ks_getattr S tru p) (\<lambda>y.
     bind_err (append_param_errors S asm tru rest) (\<lambda>rest1.
       Inr ((p, arr @ [\<bar>x - y\<bar>]) # rest1))))"

text \<open>One pass of the body of \<^verbatim>\<open>for n in range(max_n)\<close>, lines 45 to 54.\<close>

definition sim_step ::
  "('t, 'a) solver \<Rightarrow> (complex list \<Rightarrow> py_error + real list) \<Rightarrow> ('t, 'a) sim_state
     \<Rightarrow> py_error + ('t, 'a) sim_state" where
  "sim_step S projector st =
     bind_err (projector (ks_xspec S (true_ks st))) (\<lambda>target.
     bind_err (projector (assim_xspec S (assimilator st))) (\<lambda>projected_state.
     bind_err (np_sub target projected_state) (\<lambda>diff.
     bind_err (assim_error S (assimilator st) (true_ks st)) (\<lambda>err.
     bind_err (append_param_errors S (assimilator st) (true_ks st) (param_errors st)) (\<lambda>perr.
     bind_err (assim_set_target S (assimilator st) target) (\<lambda>asm1.
     bind_err (assim_advance S asm1) (\<lambda>asm2.
     bind_err (ks_advance S (true_ks st)) (\<lambda>tru1.
       Inr \<lparr>true_ks = tru1, assimilator = asm2,
            interp_errors = interp_errors st @ [l2_norm diff],
            true_errors = true_errors st @ [err],
            param_errors = perr\<rparr>))))))))"

primrec sim_loop ::
  "('t, 'a) solver \<Rightarrow> (complex list \<Rightarrow> py_error + real list) \<Rightarrow> nat \<Rightarrow> ('t, 'a) sim_state
     \<Rightarrow> py_error + ('t, 'a) sim_state" where
  "sim_loop S projector 0 st = Inr st"
| "sim_loop S projector (Suc k) st =
     bind_err (sim_step S projector st) (sim_loop S projector k)"

text \<open>\<^verbatim>\<open>int(x)\<close> on a float truncates towards zero; \<^verbatim>\<open>range(n)\<close> is empty for \<open>n \<le> 0\<close>.\<close>

definition int_of_float :: "real \<Rightarrow> int" where
  "int_of_float x = (if 0 \<le> x then \<lfloor>x\<rfloor> else \<lceil>x\<rceil>)"

text \<open>
  \<open>new_KS\<close> is the construction of the reference trajectory with its optional seeding
  from the start state (lines 30 to 33), \<open>new_KSAssim\<close> the construction of the
  assimilator from the projector and the estimated parameter names (lines 37 and 38).
  \<open>truediv\<close> is the float division of \<^verbatim>\<open>max_t/dt\<close>.
\<close>

definition run_simulation ::
  "('t, 'a) solver \<Rightarrow> py_error + 't \<Rightarrow>
     ((complex list \<Rightarrow> py_error + real list) \<Rightarrow> string list \<Rightarrow> py_error + 'a) \<Rightarrow>
     (real \<Rightarrow> real \<Rightarrow> py_error + real) \<Rightarrow> 'g dict \<Rightarrow> real \<Rightarrow> real \<Rightarrow> int
     \<Rightarrow> py_error + real list dict" where
  "run_simulation S new_KS new_KSAssim truediv initial_guess dt max_t modes =
     bind_err new_KS (\<lambda>tru.
       let estimate_params = map fst initial_guess;
           projector = (\<lambda>spec. fourier_projector spec modes)
       in bind_err (new_KSAssim projector estimate_params) (\<lambda>asm.
          bind_err (truediv max_t dt) (\<lambda>q.
            let max_n = int_of_float q;
                param_errors0 = foldl (\<lambda>d p. dict_set d p []) [] estimate_params
            in bind_err (sim_loop S projector (nat max_n)
                           \<lparr>true_ks = tru, assimilator = asm, interp_errors = [],
                            true_errors = [], param_errors = param_errors0\<rparr>) (\<lambda>st.
                 let result = param_errors st;
                     result = dict_set result ''interp_errors'' (interp_errors st);
                     result = dict_set result ''true_errors'' (true_errors st)
                 in Inr result))))"

subsection \<open>The run wrapper: \<^verbatim>\<open>simulation_wrapper\<close>\<close>

text \<open>
  \<^verbatim>\<open>except Exception\<close> catches the instances of \<^verbatim>\<open>Exception\<close>; \<^verbatim>\<open>KeyboardInterrupt\<close> and
  \<^verbatim>\<open>SystemExit\<close> derive from \<^verbatim>\<open>BaseException\<close> only.
\<close>

fun is_Exception :: "py_error \<Rightarrow> bool" where
  "is_Exception KeyboardInterrupt = False"
| "is_Exception SystemExit = False"
| "is_Exception e = True"

text \<open>
  \<open>run\<close> is the call \<^verbatim>\<open>run_simulation(**params, **kwargs)\<close> on the merged keyword
  arguments; a keyword given twice is a \<open>TypeError\<close> of the call. \<open>format_exc\<close> is
  \<^verbatim>\<open>traceback.format_exc()\<close>, the text of the exception's type, message and stack trace.
  The result is what \<^verbatim>\<open>print\<close> wrote, then the value returned (\<open>None\<close> for the
  sentinel) or the exception that left the wrapper.
\<close>

definition call_with_kwargs :: "('v dict \<Rightarrow> py_error + 'r) \<Rightarrow> 'v dict \<Rightarrow> 'v dict \<Rightarrow> py_error + 'r" where
  "call_with_kwargs run params kwargs =
     (if list_ex (\<lambda>k. dict_in k kwargs) (map fst params) then Inl TypeError
      else run (params @ kwargs))"

definition simulation_wrapper ::
  "('v dict \<Rightarrow> py_error + 'r) \<Rightarrow> (py_error \<Rightarrow> string) \<Rightarrow> 'v dict \<Rightarrow> 'v dict
     \<Rightarrow> ('v dict \<times> string) list \<times> (py_error + 'r option)" where
  "simulation_wrapper run format_exc params kwargs =
     (case call_with_kwargs run params kwargs of
        Inr result \<Rightarrow> ([], Inr (Some result))
      | Inl e \<Rightarrow>
          if is_Exception e then
            let message = format_exc e in ([(params, message)], Inr None)
          else ([], Inl e))"

subsection \<open>Reading the log of effects\<close>

text \<open>
  The projections of a log that the properties below speak about: the contents of the
  index file at its successive writes, the entries appended to the index, and the pools
  created. \<open>entry_of\<close> and \<open>events_of\<close> name the index entry and the effects of the
  \<open>i\<close>-th pass of the loop; \<open>count_flag\<close> counts the entries that hold a given boolean
  under a given key.
\<close>

definition entry_of ::
  "string \<Rightarrow> ('v dict \<Rightarrow> py_error + 'r option) \<Rightarrow> 'v dict list \<Rightarrow> nat \<Rightarrow> 'v index_entry" where
  "entry_of outdir func param_list i =
     (case func (param_list ! i) of
        Inr (Some r) \<Rightarrow> success_entry (param_list ! i) (results_filename outdir i)
      | _ \<Rightarrow> failure_entry (param_list ! i))"

definition events_of ::
  "string \<Rightarrow> ('v dict \<Rightarrow> py_error + 'r option) \<Rightarrow> 'v dict list \<Rightarrow> nat \<Rightarrow> ('v, 'r) event list" where
  "events_of outdir func param_list i =
     (case func (param_list ! i) of
        Inr (Some r) \<Rightarrow> [Savez (results_filename outdir i) r]
      | _ \<Rightarrow> [])
     @ [IndexAppend (entry_of outdir func param_list i)]
     @ (if (i + 2) mod 10 = 0 then
          [PrintMsg (completed_msg (i + 2) (length param_list)),
           JsonDump (outdir @ ''/index.json'') (map (entry_of outdir func param_list) [0..<Suc i])]
        else [])"

fun dumps :: "('v, 'r) event list \<Rightarrow> 'v index_entry list list" where
  "dumps [] = []"
| "dumps (JsonDump f ix # es) = ix # dumps es"
| "dumps (e # es) = dumps es"

fun appended :: "('v, 'r) event list \<Rightarrow> 'v index_entry list" where
  "appended [] = []"
| "appended (IndexAppend e # es) = e # appended es"
| "appended (e # es) = appended es"

fun pools_created :: "('v, 'r) event list \<Rightarrow> int list" where
  "pools_created [] = []"
| "pools_created (PoolCreate p # es) = p # pools_created es"
| "pools_created (e # es) = pools_created es"

definition count_flag :: "string \<Rightarrow> bool \<Rightarrow> 'v index_entry list \<Rightarrow> nat" where
  "count_flag key b index = length (filter (\<lambda>entry. map_of entry key = Some (EBool b)) index)"

text \<open>
  The sizes of the snapshots of the index written to its file when the loop has consumed
  the first \<open>k\<close> results, as a batch interrupted at this point leaves them.
\<close>

definition snapshots_after ::
  "string \<Rightarrow> ('v dict \<Rightarrow> py_error + 'r option) \<Rightarrow> (string \<Rightarrow> 'r \<Rightarrow> py_error option) \<Rightarrow>
     (string \<Rightarrow> 'v index_entry list \<Rightarrow> py_error option) \<Rightarrow> 'v dict list \<Rightarrow> nat \<Rightarrow> nat list" where
  "snapshots_after outdir func savez json_dump param_list k =
     map length (dumps (cur_trace (fst
       (imap_loop outdir (outdir @ ''/index.json'') savez json_dump param_list
          (take k (map func param_list)) \<lparr>cur_i = 0, cur_index = [], cur_trace = []\<rparr>))))"

text \<open>
  Reading a decimal text back as a number, to say which number a text names.
\<close>

definition digit_val :: "char \<Rightarrow> nat" where
  "digit_val c = of_char c - 48"

definition nat_of_string :: "string \<Rightarrow> nat" where
  "nat_of_string s = foldl (\<lambda>acc c. 10 * acc + digit_val c) 0 s"



subsection \<open>Sample inputs\<close>

text \<open>
  Two parameter sets of which the first run succeeds and the second fails, a pool in
  which every run fails, and an index that JSON cannot write; a run that
  divides by its \<open>dt\<close>; a run interrupted from the keyboard; the name of an exception's
  type, standing for its formatted traceback.
\<close>

definition demo_params :: "real dict list" where
  "demo_params = [[(''dt'', 1)], [(''dt'', 2)]]"

definition demo_func :: "real dict \<Rightarrow> py_error + real list dict option" where
  "demo_func params =
     (if params = [(''dt'', 1)] then Inr (Some [(''interp_errors'', [0]), (''true_errors'', [0])])
      else Inr None)"

definition all_fail :: "real dict \<Rightarrow> py_error + real list dict option" where
  "all_fail params = Inr None"

definition raising_dump :: "string \<Rightarrow> 'a \<Rightarrow> py_error option" where
  "raising_dump file content = Some TypeError"

fun exc_name :: "py_error \<Rightarrow> string" where
  "exc_name (RuntimeWarning m) = ''RuntimeWarning''"
| "exc_name (ValueError m) = ''ValueError''"
| "exc_name ZeroDivisionError = ''ZeroDivisionError''"
| "exc_name TypeError = ''TypeError''"
| "exc_name IndexError = ''IndexError''"
| "exc_name (AttributeError m) = ''AttributeError''"
| "exc_name KeyboardInterrupt = ''KeyboardInterrupt''"
| "exc_name SystemExit = ''SystemExit''"

definition demo_run :: "real dict \<Rightarrow> py_error + real list dict" where
  "demo_run kw =
     (case map_of kw ''dt'' of
        None \<Rightarrow> Inl TypeError
      | Some dt \<Rightarrow> bind_err (py_truediv 1 dt) (\<lambda>q. Inr [(''interp_errors'', [q])]))"

definition interrupted_run :: "real dict \<Rightarrow> py_error + real list dict" where
  "interrupted_run kw = Inl KeyboardInterrupt"

text \<open>
  A trivial solver, whose two trajectories never move, to run the simulation loop on;
  and the invariant of the loop: after \<open>n\<close> passes every series holds \<open>n\<close> samples.
\<close>

definition demo_solver :: "(complex list, complex list) solver" where
  "demo_solver =
     \<lparr>ks_xspec = (\<lambda>tru. tru), ks_getattr = (\<lambda>tru p. Inr 1), ks_advance = (\<lambda>tru. Inr tru),
      assim_xspec = (\<lambda>asm. asm), assim_getattr = (\<lambda>asm p. Inr 2),
      assim_error = (\<lambda>asm tru. Inr 0), assim_set_target = (\<lambda>asm target. Inr asm),
      assim_advance = (\<lambda>asm. Inr asm)\<rparr>"

definition demo_KSAssim ::
  "(complex list \<Rightarrow> py_error + real list) \<Rightarrow> string list \<Rightarrow> py_error + complex list" where
  "demo_KSAssim projector estimate_params = Inr [1, 0]"

definition series_inv :: "nat \<Rightarrow> ('t, 'a) sim_state \<Rightarrow> bool" where
  "series_inv n st \<longleftrightarrow>
     length (interp_errors st) = n \<and> length (true_errors st) = n
     \<and> list_all (\<lambda>(p, arr). length arr = n) (param_errors st)"

section \<open>Properties of the grid expander\<close>

subsection \<open>The product of the ranges\<close>

text \<open>
  The fold of \<^verbatim>\<open>itertools.product\<close> is \<^const>\<open>product_lists\<close>, whose element at a
  position is read off the mixed-radix digits of the position.
\<close>

lemma foldl_product_step:
  "foldl product_step acc pools = concat (map (\<lambda>x. map ((@) x) (product_lists pools)) acc)"
proof (induction pools arbitrary: acc)
  case Nil
  show ?case by (induction acc) simp_all
next
  case (Cons p ps)
  have "concat (map (\<lambda>x. map ((@) x) (product_lists ps)) (product_step acc p))
      = concat (map (\<lambda>x. map ((@) x) (product_lists (p # ps))) acc)"
  proof (induction acc)
    case Nil
    show ?case by (simp add: product_step_def)
  next
    case (Cons a acc)
    have one: "concat (map (\<lambda>x. map ((@) x) (product_lists ps)) (map (\<lambda>y. a @ [y]) p))
        = map ((@) a) (concat (map (\<lambda>x. map ((#) x) (product_lists ps)) p))"
      by (induction p) (simp_all add: comp_def)
    from Cons one show ?case
      by (simp add: product_step_def)
  qed
  with Cons.IH [of "product_step acc p"] show ?case by simp
qed

lemma append_Nil_fun: "(@) ([]::'a list) = (\<lambda>x. x)"
  by (rule ext) simp

lemma itertools_product_eq: "itertools_product pools = product_lists pools"
  by (simp add: itertools_product_def foldl_product_step append_Nil_fun)

lemma length_product_lists_prod: "length (product_lists xss) = prod_list (map length xss)"
  by (induction xss) (simp_all add: length_concat comp_def sum_list_triv)

lemma nth_concat_blocks:
  "(\<And>x. length (f x) = m) \<Longrightarrow> i < length xs * m \<Longrightarrow>
     concat (map f xs) ! i = f (xs ! (i div m)) ! (i mod m)"
proof (induction xs arbitrary: i)
  case Nil
  then show ?case by simp
next
  case (Cons a xs)
  show ?case
  proof (cases "i < m")
    case True
    with Cons.prems(1) [of a] show ?thesis by (simp add: nth_append)
  next
    case False
    then have ge: "m \<le> i" by simp
    with Cons.prems(2) have lt: "i - m < length xs * m" by simp
    from False Cons.prems(2) have mpos: "0 < m" by (cases m) auto
    from ge mpos have d: "i div m = Suc ((i - m) div m)"
      by (simp add: le_div_geq)
    from ge have md: "i mod m = (i - m) mod m"
      by (simp add: le_mod_geq)
    from Cons.IH [OF Cons.prems(1) lt] Cons.prems(1) [of a] False d md
    show ?thesis by (simp add: nth_append)
  qed
qed

lemma nth_product_lists:
  "idx < prod_list (map length pools) \<Longrightarrow>
     product_lists pools ! idx = pick pools (mixed_radix (map length pools) idx)"
proof (induction pools arbitrary: idx)
  case Nil
  then show ?case by (simp add: pick_def)
next
  case (Cons p ps)
  let ?m = "prod_list (map length ps)"
  have len: "\<And>x. length (map ((#) x) (product_lists ps)) = ?m"
    by (simp add: length_product_lists_prod)
  from Cons.prems have lt: "idx < length p * ?m" by simp
  then have mpos: "0 < ?m" by (cases ?m) auto
  then have r: "idx mod ?m < ?m" by simp
  have "product_lists (p # ps) ! idx
      = map ((#) (p ! (idx div ?m))) (product_lists ps) ! (idx mod ?m)"
    using nth_concat_blocks [of "\<lambda>x. map ((#) x) (product_lists ps)" ?m idx p, OF len lt]
    by simp
  also have "\<dots> = p ! (idx div ?m) # product_lists ps ! (idx mod ?m)"
    using r by (simp add: length_product_lists_prod)
  finally show ?case
    using Cons.IH [OF r] by (simp add: pick_def)
qed

lemma mixed_radix_length: "length (mixed_radix ns idx) = length ns"
  by (induction ns arbitrary: idx) simp_all

lemma mixed_radix_bound:
  "idx < prod_list ns \<Longrightarrow> list_all2 (\<lambda>j n. j < n) (mixed_radix ns idx) ns"
proof (induction ns arbitrary: idx)
  case Nil
  then show ?case by simp
next
  case (Cons n ns)
  from Cons.prems have lt: "idx < n * prod_list ns" by simp
  then have mpos: "0 < prod_list ns" by (cases "prod_list ns") auto
  from lt have "idx div prod_list ns < n"
    by (simp add: less_mult_imp_div_less)
  with Cons.IH [of "idx mod prod_list ns"] mpos show ?case by simp
qed

lemma pick_index_pools:
  "list_all2 (\<lambda>j n. j < n) js ns \<Longrightarrow> pick (map (\<lambda>n. [0..<n]) ns) js = js"
  by (induction js ns rule: list_all2_induct) (simp_all add: pick_def)

lemma mixed_radix_enumerates:
  "map (mixed_radix ns) [0..<prod_list ns] = product_lists (map (\<lambda>n. [0..<n]) ns)"
proof (rule nth_equalityI)
  show "length (map (mixed_radix ns) [0..<prod_list ns]) = length (product_lists (map (\<lambda>n. [0..<n]) ns))"
    by (simp add: length_product_lists_prod comp_def)
next
  fix idx assume "idx < length (map (mixed_radix ns) [0..<prod_list ns])"
  then have lt: "idx < prod_list ns" by simp
  then have lt': "idx < prod_list (map length (map (\<lambda>n. [0..<n]) ns))"
    by (simp add: comp_def)
  have "product_lists (map (\<lambda>n. [0..<n]) ns) ! idx
      = pick (map (\<lambda>n. [0..<n]) ns) (mixed_radix ns idx)"
    using nth_product_lists [OF lt'] by (simp add: comp_def)
  also have "\<dots> = mixed_radix ns idx"
    by (rule pick_index_pools) (rule mixed_radix_bound [OF lt])
  finally show "map (mixed_radix ns) [0..<prod_list ns] ! idx = product_lists (map (\<lambda>n. [0..<n]) ns) ! idx"
    using lt by simp
qed

lemma distinct_mixed_radix:
  "distinct (map (mixed_radix ns) [0..<prod_list ns])"
  unfolding mixed_radix_enumerates by (rule distinct_product_lists) auto

lemma set_mixed_radix:
  "set (map (mixed_radix ns) [0..<prod_list ns]) = {js. list_all2 (\<lambda>j n. j < n) js ns}"
  unfolding mixed_radix_enumerates by (auto simp: product_lists_set list_all2_map2)

subsection \<open>Overlaying a combination and deriving the scaled parameters\<close>

lemma map_of_dict_set: "map_of (dict_set d k v) = (map_of d)(k \<mapsto> v)"
  by (simp add: dict_set_def update_conv')

lemma overlay_Nil [simp]: "overlay base [] choice = base" "overlay base keys [] = base"
  by (simp_all add: overlay_def)

lemma overlay_Cons [simp]:
  "overlay base (p # ps) (c # cs) = overlay (dict_set base p c) ps cs"
  by (simp add: overlay_def)

lemma overlay_other:
  "k \<notin> set keys \<Longrightarrow> map_of (overlay base keys choice) k = map_of base k"
proof (induction keys arbitrary: choice base)
  case Nil
  show ?case by simp
next
  case (Cons p ps)
  then show ?case by (cases choice) (simp_all add: map_of_dict_set)
qed

lemma overlay_nth:
  "distinct keys \<Longrightarrow> length choice = length keys \<Longrightarrow> j < length keys \<Longrightarrow>
     map_of (overlay base keys choice) (keys ! j) = Some (choice ! j)"
proof (induction keys arbitrary: choice base j)
  case Nil
  then show ?case by simp
next
  case (Cons p ps)
  from Cons.prems(2) obtain c cs where ch: "choice = c # cs" by (cases choice) auto
  show ?case
  proof (cases j)
    case 0
    with Cons.prems(1) ch show ?thesis by (simp add: overlay_other map_of_dict_set)
  next
    case (Suc j')
    with Cons.prems ch Cons.IH [of cs j' "dict_set base p c"] show ?thesis by simp
  qed
qed

lemma bind_err_Inr_iff: "bind_err m f = Inr y \<longleftrightarrow> (\<exists>x. m = Inr x \<and> f x = Inr y)"
  by (cases m) (simp_all add: bind_err_def)

lemma expand_loop_Inr_iff:
  "expand_loop t b ks cs acc = Inr pl \<longleftrightarrow>
     (\<exists>ps. pl = acc @ ps \<and> list_all2 (\<lambda>c p. expand_choice t b ks c = Inr p) cs ps)"
proof (induction cs arbitrary: acc)
  case Nil
  show ?case by auto
next
  case (Cons c cs)
  show ?case
    by (auto simp: bind_err_Inr_iff Cons.IH list_all2_Cons1)
qed

lemma pools_of_ranges:
  "distinct (map fst ranges) \<Longrightarrow>
     map (\<lambda>p. the (map_of ranges p)) (map fst ranges) = map snd ranges"
  by (induction ranges) (auto simp: rev_image_eqI)

lemma run_batch_param_list_Inr_iff:
  "run_batch_param_list t b ranges = Inr pl \<longleftrightarrow>
     ranges \<noteq> [] \<and> \<not> (dict_in ''mu_scale'' b \<and> dict_in ''mu'' ranges)
     \<and> \<not> (dict_in ''alpha_scale'' b \<and> dict_in ''alpha'' ranges)
     \<and> list_all2 (\<lambda>c p. expand_choice t b (map fst ranges) c = Inr p)
          (itertools_product (map (\<lambda>p. the (map_of ranges p)) (map fst ranges))) pl"
  by (simp add: run_batch_param_list_def Let_def expand_loop_Inr_iff)

lemma list_all2_choose:
  "\<forall>c\<in>set cs. \<exists>p. P c p \<Longrightarrow> \<exists>ps. list_all2 P cs ps"
  by (induction cs) (auto simp: list_all2_Cons1)

lemma derive_no_dt: "map_of d ''dt'' = None \<Longrightarrow> derive t d = Inr d"
  by (simp add: derive_def)

lemma derive_scaled_cases:
  assumes "derive_scaled t scale raw dt d = Inr d'"
  shows "(map_of d scale = None \<and> d' = d)
       \<or> (\<exists>s q. map_of d scale = Some s \<and> t s dt = Inr q \<and> d' = dict_set d raw q)"
  using assms by (auto simp: derive_scaled_def bind_err_Inr_iff split: option.splits)

lemma derive_Some_dt:
  assumes "derive t d = Inr d'" and "map_of d ''dt'' = Some dt"
  shows "\<exists>d1. derive_scaled t ''mu_scale'' ''mu'' dt d = Inr d1
            \<and> derive_scaled t ''alpha_scale'' ''alpha'' dt d1 = Inr d'"
  using assms by (simp add: derive_def bind_err_Inr_iff)

lemma derive_keeps:
  assumes "derive t d = Inr d'" and "k \<noteq> ''mu''" and "k \<noteq> ''alpha''"
  shows "map_of d' k = map_of d k"
proof (cases "map_of d ''dt''")
  case None
  with assms(1) show ?thesis by (simp add: derive_def)
next
  case (Some dt)
  from derive_Some_dt [OF assms(1) Some] obtain d1 where
    m: "derive_scaled t ''mu_scale'' ''mu'' dt d = Inr d1" and
    a: "derive_scaled t ''alpha_scale'' ''alpha'' dt d1 = Inr d'" by blast
  from derive_scaled_cases [OF m] assms(2) have "map_of d1 k = map_of d k"
    by (auto simp: map_of_dict_set)
  moreover from derive_scaled_cases [OF a] assms(3) have "map_of d' k = map_of d1 k"
    by (auto simp: map_of_dict_set)
  ultimately show ?thesis by simp
qed

lemma derive_mu:
  assumes "derive t d = Inr d'"
    and "map_of d ''dt'' = Some dt" and "map_of d ''mu_scale'' = Some s"
  shows "\<exists>q. t s dt = Inr q \<and> map_of d' ''mu'' = Some q"
proof -
  from derive_Some_dt [OF assms(1,2)] obtain d1 where
    m: "derive_scaled t ''mu_scale'' ''mu'' dt d = Inr d1" and
    a: "derive_scaled t ''alpha_scale'' ''alpha'' dt d1 = Inr d'" by blast
  from derive_scaled_cases [OF m] assms(3) obtain q where
    q: "t s dt = Inr q" and d1: "d1 = dict_set d ''mu'' q" by auto
  from derive_scaled_cases [OF a] have "map_of d' ''mu'' = map_of d1 ''mu''"
    by (auto simp: map_of_dict_set)
  with q d1 show ?thesis by (simp add: map_of_dict_set)
qed

lemma derive_alpha:
  assumes "derive t d = Inr d'"
    and "map_of d ''dt'' = Some dt" and "map_of d ''alpha_scale'' = Some s"
  shows "\<exists>q. t s dt = Inr q \<and> map_of d' ''alpha'' = Some q"
proof -
  from derive_Some_dt [OF assms(1,2)] obtain d1 where
    m: "derive_scaled t ''mu_scale'' ''mu'' dt d = Inr d1" and
    a: "derive_scaled t ''alpha_scale'' ''alpha'' dt d1 = Inr d'" by blast
  from derive_scaled_cases [OF m] have "map_of d1 ''alpha_scale'' = map_of d ''alpha_scale''"
    by (auto simp: map_of_dict_set)
  with derive_scaled_cases [OF a] assms(3) obtain q where
    "t s dt = Inr q" and "d' = dict_set d1 ''alpha'' q" by auto
  then show ?thesis by (simp add: map_of_dict_set)
qed

text \<open>
  The unfolding rules that evaluate the grid expander on a concrete input.
\<close>

lemmas grid_eval =
  run_batch_param_list_def itertools_product_def product_step_def expand_choice_def derive_def
  derive_scaled_def overlay_def dict_set_def dict_in_def bind_err_def py_truediv_def Let_def

subsection \<open>The expansion is the product of the ranges\<close>

text \<open>
  Claim C1, as amended. For every base set and every non-empty \<open>ranges\<close> (a dictionary, so
  with distinct keys) that pass the two scale/raw checks of \<^verbatim>\<open>run_batch\<close> and on which
  no derived-parameter division raises, \<^verbatim>\<open>run_batch\<close> builds a parameter list of
  exactly \<open>n1 * ... * nk\<close> sets. The set at position \<open>idx\<close> is the combination whose
  axis positions are the mixed-radix digits of \<open>idx\<close>, the last axis being the fastest:
  its values are overlaid on the base set (every range key holds the combination's value,
  every other key the base value) and the derived parameters are then substituted. The
  positions run through every tuple of axis positions exactly once.
\<close>

theorem run_batch_param_list_product:
  assumes keys: "distinct (map fst ranges)"
    and nonempty: "ranges \<noteq> []"
    and mu: "\<not> (dict_in ''mu_scale'' base_params \<and> dict_in ''mu'' ranges)"
    and alpha: "\<not> (dict_in ''alpha_scale'' base_params \<and> dict_in ''alpha'' ranges)"
    and division: "\<forall>choice\<in>set (itertools_product (map snd ranges)).
                     \<exists>p. expand_choice truediv base_params (map fst ranges) choice = Inr p"
  shows "\<exists>param_list.
           run_batch_param_list truediv base_params ranges = Inr param_list
         \<and> length param_list = prod_list (map (length \<circ> snd) ranges)
         \<and> (\<forall>idx<length param_list.
              let choice = pick (map snd ranges) (mixed_radix (map (length \<circ> snd) ranges) idx);
                  input_params = overlay base_params (map fst ranges) choice
              in derive truediv input_params = Inr (param_list ! idx)
               \<and> (\<forall>j<length ranges. map_of input_params (fst (ranges ! j)) = Some (choice ! j))
               \<and> (\<forall>k. k \<notin> fst ` set ranges \<longrightarrow> map_of input_params k = map_of base_params k))
         \<and> distinct (map (mixed_radix (map (length \<circ> snd) ranges))
                        [0..<prod_list (map (length \<circ> snd) ranges)])
         \<and> set (map (mixed_radix (map (length \<circ> snd) ranges))
                   [0..<prod_list (map (length \<circ> snd) ranges)])
             = {js. list_all2 (\<lambda>j r. j < length (snd r)) js ranges}"
proof -
  let ?keys = "map fst ranges"
  let ?pools = "map snd ranges"
  let ?sizes = "map (length \<circ> snd) ranges"
  let ?choices = "itertools_product ?pools"
  have sizes: "?sizes = map length ?pools" by simp
  have len_choices: "length ?choices = prod_list ?sizes"
    by (simp add: itertools_product_eq length_product_lists_prod comp_def)
  from division have "\<forall>c\<in>set ?choices. \<exists>p. expand_choice truediv base_params ?keys c = Inr p" .
  then have "\<exists>ps. list_all2 (\<lambda>c p. expand_choice truediv base_params ?keys c = Inr p) ?choices ps"
    by (rule list_all2_choose)
  then obtain ps where
    all2: "list_all2 (\<lambda>c p. expand_choice truediv base_params ?keys c = Inr p) ?choices ps"
    by blast
  have run: "run_batch_param_list truediv base_params ranges = Inr ps"
    unfolding run_batch_param_list_Inr_iff pools_of_ranges [OF keys]
    using nonempty mu alpha all2 by blast
  from all2 have len: "length ps = prod_list ?sizes"
    using len_choices by (simp add: list_all2_lengthD)
  have each: "let choice = pick ?pools (mixed_radix ?sizes idx);
                  input_params = overlay base_params ?keys choice
              in derive truediv input_params = Inr (ps ! idx)
               \<and> (\<forall>j<length ranges. map_of input_params (fst (ranges ! j)) = Some (choice ! j))
               \<and> (\<forall>k. k \<notin> fst ` set ranges \<longrightarrow> map_of input_params k = map_of base_params k)"
    if idx: "idx < length ps" for idx
  proof -
    let ?choice = "pick ?pools (mixed_radix ?sizes idx)"
    from idx len have lt: "idx < prod_list (map length ?pools)" by (simp add: comp_def)
    have nth: "?choices ! idx = ?choice"
      using nth_product_lists [OF lt] by (simp add: itertools_product_eq comp_def)
    from all2 idx have "expand_choice truediv base_params ?keys (?choices ! idx) = Inr (ps ! idx)"
      by (simp add: list_all2_conv_all_nth)
    with nth have d: "derive truediv (overlay base_params ?keys ?choice) = Inr (ps ! idx)"
      by (simp add: expand_choice_def)
    have lc: "length ?choice = length ?keys"
      by (simp add: pick_def mixed_radix_length)
    have a: "\<forall>j<length ranges. map_of (overlay base_params ?keys ?choice) (fst (ranges ! j)) = Some (?choice ! j)"
      using overlay_nth [OF keys lc] by simp
    have b: "\<forall>k. k \<notin> fst ` set ranges \<longrightarrow> map_of (overlay base_params ?keys ?choice) k = map_of base_params k"
      using overlay_other [of _ ?keys base_params ?choice] by simp
    from d a b show ?thesis by (simp add: Let_def)
  qed
  have cover: "set (map (mixed_radix ?sizes) [0..<prod_list ?sizes])
             = {js. list_all2 (\<lambda>j r. j < length (snd r)) js ranges}"
    by (simp add: set_mixed_radix list_all2_map2 del: set_map map_map)
  from run len each distinct_mixed_radix [of ?sizes] cover show ?thesis
    by blast
qed

text \<open>
  The theorem at a base set with \<open>mu_scale\<close> and the two axes \<open>dt\<close> and \<open>alpha_scale\<close>.
\<close>

theorem run_batch_param_list_product_witness:
  "\<exists>param_list.
      run_batch_param_list py_truediv [(''mu_scale'', 2)] [(''dt'', [1, 2]), (''alpha_scale'', [4])]
        = Inr param_list
    \<and> length param_list = 2
    \<and> derive py_truediv (overlay [(''mu_scale'', 2)] [''dt'', ''alpha_scale''] [2, 4])
        = Inr (param_list ! 1)"
proof -
  let ?B = "[(''mu_scale'', 2::real)]"
  let ?R = "[(''dt'', [1, 2::real]), (''alpha_scale'', [4])]"
  have h1: "distinct (map fst ?R)" by simp
  have h2: "?R \<noteq> []" by simp
  have h3: "\<not> (dict_in ''mu_scale'' ?B \<and> dict_in ''mu'' ?R)" by (simp add: dict_in_def)
  have h4: "\<not> (dict_in ''alpha_scale'' ?B \<and> dict_in ''alpha'' ?R)" by (simp add: dict_in_def)
  have h5: "\<forall>choice\<in>set (itertools_product (map snd ?R)).
              \<exists>p. expand_choice py_truediv ?B (map fst ?R) choice = Inr p"
    by (simp add: grid_eval)
  from run_batch_param_list_product [OF h1 h2 h3 h4 h5]
  obtain pl where run: "run_batch_param_list py_truediv ?B ?R = Inr pl"
    and len: "length pl = prod_list (map (length \<circ> snd) ?R)"
    and each: "\<forall>idx<length pl.
              let choice = pick (map snd ?R) (mixed_radix (map (length \<circ> snd) ?R) idx);
                  input_params = overlay ?B (map fst ?R) choice
              in derive py_truediv input_params = Inr (pl ! idx)
               \<and> (\<forall>j<length ?R. map_of input_params (fst (?R ! j)) = Some (choice ! j))
               \<and> (\<forall>k. k \<notin> fst ` set ?R \<longrightarrow> map_of input_params k = map_of ?B k)"
    by blast
  from len have len2: "length pl = 2" by simp
  with each have "let choice = pick (map snd ?R) (mixed_radix (map (length \<circ> snd) ?R) 1);
                  input_params = overlay ?B (map fst ?R) choice
              in derive py_truediv input_params = Inr (pl ! 1)
               \<and> (\<forall>j<length ?R. map_of input_params (fst (?R ! j)) = Some (choice ! j))
               \<and> (\<forall>k. k \<notin> fst ` set ?R \<longrightarrow> map_of input_params k = map_of ?B k)"
    by simp
  then have "derive py_truediv (overlay ?B [''dt'', ''alpha_scale''] [2, 4]) = Inr (pl ! 1)"
    by (simp add: Let_def pick_def)
  with run len2 show ?thesis by blast
qed

text \<open>
  Claim C1 as stated, for every base set and every non-empty \<open>ranges\<close>, fails where the
  base set defines \<open>mu_scale\<close> and \<open>ranges\<close> varies \<open>mu\<close>: one axis of two values, and no
  parameter set is produced.
\<close>

theorem run_batch_param_list_guard_counterexample:
  "run_batch_param_list py_truediv [(''mu_scale'', 1)] [(''mu'', [1, 2])]
     = Inl (ValueError ''Cannot both set mu_scale and vary mu!'')"
  by (simp add: run_batch_param_list_def dict_in_def)

subsection \<open>The derived-parameter law\<close>

text \<open>
  Claim C2. In every expanded parameter set, where the set after the overlay defines
  \<open>dt\<close> and \<open>mu_scale\<close> the entry \<open>mu\<close> is the quotient \<open>mu_scale / dt\<close> of the stored
  values, whatever \<open>mu\<close> was before; likewise \<open>alpha\<close> is \<open>alpha_scale / dt\<close>. Where \<open>dt\<close>
  is absent the expanded set is the overlaid set unchanged, and no key other than \<open>mu\<close>
  and \<open>alpha\<close> is ever touched.
\<close>

theorem derived_parameter_law:
  assumes keys: "distinct (map fst ranges)"
    and run: "run_batch_param_list truediv base_params ranges = Inr param_list"
    and idx: "idx < length param_list"
  shows "let input_params = overlay base_params (map fst ranges)
                              (itertools_product (map snd ranges) ! idx);
             expanded = param_list ! idx
         in (\<forall>dt s. map_of input_params ''dt'' = Some dt \<and> map_of input_params ''mu_scale'' = Some s
               \<longrightarrow> (\<exists>q. truediv s dt = Inr q \<and> map_of expanded ''mu'' = Some q))
          \<and> (\<forall>dt s. map_of input_params ''dt'' = Some dt \<and> map_of input_params ''alpha_scale'' = Some s
               \<longrightarrow> (\<exists>q. truediv s dt = Inr q \<and> map_of expanded ''alpha'' = Some q))
          \<and> (map_of input_params ''dt'' = None \<longrightarrow> expanded = input_params)
          \<and> (\<forall>k. k \<noteq> ''mu'' \<and> k \<noteq> ''alpha'' \<longrightarrow> map_of expanded k = map_of input_params k)"
proof -
  let ?inp = "overlay base_params (map fst ranges) (itertools_product (map snd ranges) ! idx)"
  from run have "list_all2 (\<lambda>c p. expand_choice truediv base_params (map fst ranges) c = Inr p)
                   (itertools_product (map snd ranges)) param_list"
    unfolding run_batch_param_list_Inr_iff pools_of_ranges [OF keys] by blast
  with idx have d: "derive truediv ?inp = Inr (param_list ! idx)"
    by (simp add: list_all2_conv_all_nth expand_choice_def)
  from d have "map_of ?inp ''dt'' = None \<longrightarrow> param_list ! idx = ?inp"
    by (auto simp: derive_no_dt)
  with derive_mu [OF d] derive_alpha [OF d] derive_keeps [OF d]
  show ?thesis unfolding Let_def by blast
qed

text \<open>
  The theorem at a base set that already holds \<open>mu = 7\<close>: with \<open>dt = 2\<close> the expanded
  set holds \<open>mu = 2 / 2\<close>.
\<close>

theorem derived_parameter_law_witness:
  "run_batch_param_list py_truediv [(''mu'', 7), (''mu_scale'', 2), (''alpha_scale'', 4)]
       [(''dt'', [1, 2])]
     = Inr [[(''mu'', 2), (''mu_scale'', 2), (''alpha_scale'', 4), (''dt'', 1), (''alpha'', 4)],
            [(''mu'', 1), (''mu_scale'', 2), (''alpha_scale'', 4), (''dt'', 2), (''alpha'', 2)]]
   \<and> py_truediv 2 2 = Inr 1"
proof -
  let ?B = "[(''mu'', 7::real), (''mu_scale'', 2), (''alpha_scale'', 4)]"
  let ?R = "[(''dt'', [1, 2::real])]"
  let ?P = "[[(''mu'', 2::real), (''mu_scale'', 2), (''alpha_scale'', 4), (''dt'', 1), (''alpha'', 4)],
            [(''mu'', 1), (''mu_scale'', 2), (''alpha_scale'', 4), (''dt'', 2), (''alpha'', 2)]]"
  have h1: "distinct (map fst ?R)" by simp
  have h2: "run_batch_param_list py_truediv ?B ?R = Inr ?P" by (simp add: grid_eval)
  have h3: "1 < length ?P" by simp
  have inp: "overlay ?B (map fst ?R) (itertools_product (map snd ?R) ! 1)
           = [(''mu'', 7), (''mu_scale'', 2), (''alpha_scale'', 4), (''dt'', 2)]"
    by (simp add: grid_eval)
  from derived_parameter_law [OF h1 h2 h3]
  have "\<exists>q. py_truediv 2 2 = Inr q \<and> map_of (?P ! 1) ''mu'' = Some q"
    unfolding Let_def inp by simp
  then have "py_truediv 2 2 = Inr 1" by auto
  with h2 show ?thesis by blast
qed

section \<open>Properties of the orchestrator\<close>

subsection \<open>The log of a batch in which nothing raises\<close>

text \<open>
  Where no worker and no write raises, a batch that is not empty ends without an
  exception, and its log is the creation of the pool, the effects of the passes
  \<open>0, ..., N - 1\<close> in this order, and the final write of the index.
\<close>

lemma checkpoint_closed:
  assumes "\<And>f ix. json_dump f ix = None"
  shows "checkpoint json_dump index_file n st1
       = (st1\<lparr>cur_i := Suc (cur_i st1),
              cur_trace := cur_trace st1 @
                (if (cur_i st1 + 2) mod 10 = 0 then
                   [PrintMsg (completed_msg (cur_i st1 + 2) n), JsonDump index_file (cur_index st1)]
                 else [])\<rparr>, None)"
  by (simp add: checkpoint_def Let_def assms)

lemma loop_body_closed:
  assumes "cur_i st = i0" and "cur_index st = map (entry_of outdir func pl) [0..<i0]"
    and "i0 < length pl" and "func (pl ! i0) = Inr result"
    and sv: "\<And>f r. savez f r = None" and jd: "\<And>f ix. json_dump f ix = None"
  shows "loop_body outdir (outdir @ ''/index.json'') savez json_dump pl st result
       = (\<lparr>cur_i = Suc i0, cur_index = map (entry_of outdir func pl) [0..<Suc i0],
              cur_trace = cur_trace st @ events_of outdir func pl i0\<rparr>, None)"
  using assms(1-4)
  by (cases result)
     (simp_all add: loop_body_def events_of_def entry_of_def Let_def sv checkpoint_closed [OF jd])

lemma imap_loop_prefix:
  assumes "cur_i st = i0" and "cur_index st = map (entry_of outdir func pl) [0..<i0]"
    and "i0 + n \<le> length pl"
    and ok: "\<And>p. p \<in> set pl \<Longrightarrow> \<exists>x. func p = Inr x"
    and sv: "\<And>f r. savez f r = None" and jd: "\<And>f ix. json_dump f ix = None"
  shows "imap_loop outdir (outdir @ ''/index.json'') savez json_dump pl
           (map func (take n (drop i0 pl))) st
       = (\<lparr>cur_i = i0 + n, cur_index = map (entry_of outdir func pl) [0..<i0 + n],
              cur_trace = cur_trace st @ concat (map (events_of outdir func pl) [i0..<i0 + n])\<rparr>,
          None)"
  using assms(1-3)
proof (induction n arbitrary: i0 st)
  case 0
  then show ?case by simp
next
  case (Suc n)
  from Suc.prems(3) have lt: "i0 < length pl" by simp
  then have dr: "take (Suc n) (drop i0 pl) = pl ! i0 # take n (drop (Suc i0) pl)"
    by (simp add: Cons_nth_drop_Suc [symmetric])
  from lt ok [of "pl ! i0"] obtain result where res: "func (pl ! i0) = Inr result" by auto
  let ?st1 = "\<lparr>cur_i = Suc i0, cur_index = map (entry_of outdir func pl) [0..<Suc i0],
              cur_trace = cur_trace st @ events_of outdir func pl i0\<rparr>"
  have body: "loop_body outdir (outdir @ ''/index.json'') savez json_dump pl st result
            = (?st1, None)"
    by (rule loop_body_closed [OF Suc.prems(1,2) lt res sv jd])
  have up: "[i0..<i0 + Suc n] = i0 # [Suc i0..<Suc i0 + n]"
    by (simp add: upt_conv_Cons)
  have "imap_loop outdir (outdir @ ''/index.json'') savez json_dump pl
          (map func (take n (drop (Suc i0) pl))) ?st1
      = (\<lparr>cur_i = Suc i0 + n, cur_index = map (entry_of outdir func pl) [0..<Suc i0 + n],
              cur_trace = cur_trace ?st1 @ concat (map (events_of outdir func pl) [Suc i0..<Suc i0 + n])\<rparr>,
         None)"
    using Suc.prems(3) by (intro Suc.IH) simp_all
  with body dr up res show ?case
    by simp
qed

lemma imap_loop_closed:
  assumes "cur_i st = i0" and "cur_index st = map (entry_of outdir func pl) [0..<i0]"
    and "i0 \<le> length pl"
    and ok: "\<And>p. p \<in> set pl \<Longrightarrow> \<exists>x. func p = Inr x"
    and sv: "\<And>f r. savez f r = None" and jd: "\<And>f ix. json_dump f ix = None"
  shows "imap_loop outdir (outdir @ ''/index.json'') savez json_dump pl (map func (drop i0 pl)) st
       = (\<lparr>cur_i = length pl, cur_index = map (entry_of outdir func pl) [0..<length pl],
              cur_trace = cur_trace st @ concat (map (events_of outdir func pl) [i0..<length pl])\<rparr>,
          None)"
  using imap_loop_prefix [OF assms(1,2) _ ok sv jd, of "length pl - i0"] assms(3) by simp

lemma run_simulations_low_closed:
  assumes "pl \<noteq> []"
    and ok: "\<And>p. p \<in> set pl \<Longrightarrow> \<exists>x. func p = Inr x"
    and sv: "\<And>f r. savez f r = None" and jd: "\<And>f ix. json_dump f ix = None"
  shows "run_simulations_low outdir cpu_count func savez json_dump pl n_jobs =
     (PoolCreate (min (max 1 (case n_jobs of None \<Rightarrow> 3 * cpu_count div 4 | Some n \<Rightarrow> n))
                    (int (length pl)))
        # concat (map (events_of outdir func pl) [0..<length pl])
        @ [PrintMsg (all_completed_msg (length pl)),
           JsonDump (outdir @ ''/index.json'') (map (entry_of outdir func pl) [0..<length pl])],
      None)"
proof -
  let ?p = "min (max 1 (case n_jobs of None \<Rightarrow> 3 * cpu_count div 4 | Some n \<Rightarrow> n)) (int (length pl))"
  from assms(1) have pos: "\<not> ?p < 1" by (cases pl) auto
  have "imap_loop outdir (outdir @ ''/index.json'') savez json_dump pl (map func (drop 0 pl))
          \<lparr>cur_i = 0, cur_index = [], cur_trace = [PoolCreate ?p]\<rparr>
      = (\<lparr>cur_i = length pl, cur_index = map (entry_of outdir func pl) [0..<length pl],
              cur_trace = cur_trace \<lparr>cur_i = 0, cur_index = [], cur_trace = [PoolCreate ?p]\<rparr>
                 @ concat (map (events_of outdir func pl) [0..<length pl])\<rparr>, None)"
    by (rule imap_loop_closed [OF _ _ _ ok sv jd]) simp_all
  with pos show ?thesis
    by (simp add: run_simulations_low_def Let_def jd)
qed


lemma dumps_append: "dumps (xs @ ys) = dumps xs @ dumps ys"
  by (induction xs rule: dumps.induct) simp_all

lemma appended_append: "appended (xs @ ys) = appended xs @ appended ys"
  by (induction xs rule: appended.induct) simp_all

lemma pools_created_append: "pools_created (xs @ ys) = pools_created xs @ pools_created ys"
  by (induction xs rule: pools_created.induct) simp_all

lemma dumps_events_of:
  "dumps (events_of outdir func pl i)
     = (if (i + 2) mod 10 = 0 then [map (entry_of outdir func pl) [0..<Suc i]] else [])"
  by (simp add: events_of_def dumps_append split: sum.splits option.splits)

lemma appended_events_of: "appended (events_of outdir func pl i) = [entry_of outdir func pl i]"
  by (simp add: events_of_def appended_append split: sum.splits option.splits)

lemma pools_created_events_of: "pools_created (events_of outdir func pl i) = []"
  by (simp add: events_of_def pools_created_append split: sum.splits option.splits)

lemma dumps_concat:
  "dumps (concat (map (events_of outdir func pl) xs))
     = map (\<lambda>i. map (entry_of outdir func pl) [0..<Suc i]) (filter (\<lambda>i. (i + 2) mod 10 = 0) xs)"
  by (induction xs) (simp_all add: dumps_append dumps_events_of)

lemma appended_concat:
  "appended (concat (map (events_of outdir func pl) xs)) = map (entry_of outdir func pl) xs"
  by (induction xs) (simp_all add: appended_append appended_events_of)

lemma pools_created_concat:
  "pools_created (concat (map (events_of outdir func pl) xs)) = []"
  by (induction xs) (simp_all add: pools_created_append pools_created_events_of)

lemma entry_of_params:
  "map_of (entry_of outdir func pl i) ''params'' = Some (EParams (pl ! i))"
  by (simp add: entry_of_def success_entry_def failure_entry_def split: sum.splits option.splits)

lemma entry_of_success:
  "func (pl ! i) = Inr (Some r) \<Longrightarrow>
     map_of (entry_of outdir func pl i) ''succeded'' = Some (EBool True)
   \<and> map_of (entry_of outdir func pl i) ''filename'' = Some (EStr (results_filename outdir i))"
  by (simp add: entry_of_def success_entry_def)

lemma entry_of_failure:
  "func (pl ! i) = Inr None \<Longrightarrow>
     map_of (entry_of outdir func pl i) ''succeded'' = Some (EBool False)
   \<and> map_of (entry_of outdir func pl i) ''error'' = Some (EStr [])"
  by (simp add: entry_of_def failure_entry_def)

lemma count_flag_entries:
  "count_flag ''succeded'' True (map (entry_of outdir func pl) xs)
   + count_flag ''succeded'' False (map (entry_of outdir func pl) xs) = length xs"
proof (induction xs)
  case Nil
  show ?case by (simp add: count_flag_def)
next
  case (Cons i xs)
  then show ?case
    by (simp add: count_flag_def entry_of_def success_entry_def failure_entry_def
             split: sum.splits option.splits)
qed

lemma demo_func_simps:
  "demo_func (demo_params ! 0) = Inr (Some [(''interp_errors'', [0]), (''true_errors'', [0])])"
  "demo_func (demo_params ! Suc 0) = Inr None"
  by (simp_all add: demo_func_def demo_params_def)

lemma demo_func_defined: "\<exists>x. demo_func p = Inr x"
  by (simp add: demo_func_def)

lemma all_fail_defined: "\<exists>x. all_fail p = Inr x"
  by (simp add: all_fail_def)

lemma demo_params_simps: "demo_params \<noteq> []" "length demo_params = 2"
  by (simp_all add: demo_params_def)

lemma quiet_None: "quiet f x = None"
  by (simp add: quiet_def)

lemmas demo_closed =
  run_simulations_low_closed [where func = demo_func and savez = quiet and json_dump = quiet,
    OF _ demo_func_defined quiet_None quiet_None]

lemmas all_fail_closed =
  run_simulations_low_closed [where func = all_fail and savez = quiet and json_dump = quiet,
    OF _ all_fail_defined quiet_None quiet_None]

subsection \<open>The log of any batch\<close>

text \<open>
  Whatever raises, the pool is created once, before any other effect, and the log is in
  order: the state of the loop keeps its counter equal to the number of entries appended.
\<close>

lemma checkpoint_log:
  "checkpoint json_dump index_file n st1 = (st2, err) \<Longrightarrow>
     cur_index st2 = cur_index st1 \<and> cur_i st2 = Suc (cur_i st1)
   \<and> (\<exists>ext. cur_trace st2 = cur_trace st1 @ ext \<and> appended ext = [] \<and> pools_created ext = [])"
  by (auto simp: checkpoint_def Let_def split: if_splits option.splits)

lemma loop_body_pools:
  "loop_body outdir index_file savez json_dump pl st result = (st1, err) \<Longrightarrow>
     pools_created (cur_trace st1) = pools_created (cur_trace st)"
  by (auto simp: loop_body_def Let_def pools_created_append
           split: if_splits option.splits dest!: checkpoint_log)

lemma imap_loop_pools:
  "imap_loop outdir index_file savez json_dump pl results st = (st1, err) \<Longrightarrow>
     pools_created (cur_trace st1) = pools_created (cur_trace st)"
proof (induction results arbitrary: st)
  case Nil
  then show ?case by simp
next
  case (Cons x results)
  show ?case
  proof (cases x)
    case (Inl e)
    with Cons.prems show ?thesis by simp
  next
    case (Inr result)
    obtain st2 err2 where b: "loop_body outdir index_file savez json_dump pl st result = (st2, err2)"
      by (cases "loop_body outdir index_file savez json_dump pl st result")
    from loop_body_pools [OF b] Cons.prems Inr b Cons.IH [of st2] show ?thesis
      by (cases err2) auto
  qed
qed

lemma run_simulations_low_pools:
  "pl \<noteq> [] \<Longrightarrow>
     pools_created (fst (run_simulations_low outdir cpu_count func savez json_dump pl n_jobs))
       = [min (max 1 (case n_jobs of None \<Rightarrow> 3 * cpu_count div 4 | Some n \<Rightarrow> n))
            (int (length pl))]"
proof -
  assume ne: "pl \<noteq> []"
  let ?p = "min (max 1 (case n_jobs of None \<Rightarrow> 3 * cpu_count div 4 | Some n \<Rightarrow> n)) (int (length pl))"
  let ?st0 = "\<lparr>cur_i = 0, cur_index = [], cur_trace = [PoolCreate ?p :: ('a, 'b) event]\<rparr>"
  from ne have pos: "\<not> ?p < 1" by (cases pl) auto
  obtain st err where
    l: "imap_loop outdir (outdir @ ''/index.json'') savez json_dump pl (map func pl) ?st0 = (st, err)"
    by (cases "imap_loop outdir (outdir @ ''/index.json'') savez json_dump pl (map func pl) ?st0")
  from imap_loop_pools [OF l] have "pools_created (cur_trace st) = [?p]" by simp
  with pos l show ?thesis
    by (simp add: run_simulations_low_def Let_def pools_created_append split: option.splits)
qed







text \<open>
  Ten tasks whose index cannot be written: the first periodic write raises after the
  ninth entry, nothing is written, and the tenth entry is never appended.
\<close>

lemma json_dump_raises_example:
  "snd (run_simulations_low ''out'' 4 all_fail quiet raising_dump (replicate 10 [(''dt'', 1)]) None)
     = Some TypeError
   \<and> length (appended (fst (run_simulations_low ''out'' 4 all_fail quiet raising_dump
                              (replicate 10 [(''dt'', 1)]) None))) = 9
   \<and> dumps (fst (run_simulations_low ''out'' 4 all_fail quiet raising_dump
                              (replicate 10 [(''dt'', 1)]) None)) = []"
  by code_simp

text \<open>
  The decimal text of a number reads back as the number, so two positions never share
  the name of an artifact.
\<close>

lemma digit_val_digit_char: "d < 10 \<Longrightarrow> digit_val (digit_char d) = d"
proof -
  assume "d < 10"
  then have "d = 0 \<or> d = 1 \<or> d = 2 \<or> d = 3 \<or> d = 4 \<or> d = 5 \<or> d = 6 \<or> d = 7 \<or> d = 8 \<or> d = 9"
    by arith
  then show ?thesis
    by (elim disjE) (simp_all add: digit_val_def digit_char_def)
qed

lemma nat_of_string_snoc: "nat_of_string (s @ [c]) = 10 * nat_of_string s + digit_val c"
  by (simp add: nat_of_string_def)

lemma nat_of_string_str_nat: "nat_of_string (str_nat n) = n"
proof (induction n rule: str_nat.induct)
  case (1 n)
  show ?case
  proof (cases "n < 10")
    case True
    then show ?thesis
      by (subst str_nat.simps) (simp add: nat_of_string_def digit_val_digit_char)
  next
    case False
    with "1" have "nat_of_string (str_nat (n div 10)) = n div 10" by simp
    with False show ?thesis
      by (subst str_nat.simps) (simp add: nat_of_string_snoc digit_val_digit_char)
  qed
qed

lemma str_nat_inj: "str_nat j = str_nat i \<Longrightarrow> j = i"
  by (metis nat_of_string_str_nat)

lemma results_filename_inj: "results_filename outdir j = results_filename outdir i \<Longrightarrow> j = i"
  by (simp add: results_filename_def str_nat_inj)

subsection \<open>Validation before dispatch\<close>

text \<open>
  Claim C4, as amended. \<^verbatim>\<open>run_batch\<close> fails before any effect, so before any worker is
  spawned, with \<open>RuntimeWarning\<close> whenever \<open>ranges\<close> is empty, and with \<open>ValueError\<close>
  whenever the base set defines \<open>mu_scale\<close> and \<open>ranges\<close> varies \<open>mu\<close>, or the base set
  defines \<open>alpha_scale\<close> and \<open>ranges\<close> varies \<open>alpha\<close>; where both hold the message is
  the one about \<open>mu\<close>.
\<close>

theorem run_batch_configuration_errors:
  "(ranges = [] \<longrightarrow>
      run_batch truediv outdir cpu_count func savez json_dump base_params ranges grid n_jobs
        = ([], Some (RuntimeWarning ''No parameter ranges specified - nothing to do!'')))
   \<and> (dict_in ''mu_scale'' base_params \<and> dict_in ''mu'' ranges \<longrightarrow>
      run_batch truediv outdir cpu_count func savez json_dump base_params ranges grid n_jobs
        = ([], Some (ValueError ''Cannot both set mu_scale and vary mu!'')))
   \<and> (dict_in ''alpha_scale'' base_params \<and> dict_in ''alpha'' ranges \<longrightarrow>
      run_batch truediv outdir cpu_count func savez json_dump base_params ranges grid n_jobs
        = ([], Some (ValueError
             (if dict_in ''mu_scale'' base_params \<and> dict_in ''mu'' ranges
              then ''Cannot both set mu_scale and vary mu!''
              else ''Cannot both set alpha_scale and vary alpha!''))))"
proof -
  have "ranges \<noteq> []" if "dict_in k ranges" for k
    using that by (auto simp: dict_in_def)
  then show ?thesis
    by (auto simp: run_batch_def run_batch_param_list_def Let_def)
qed

text \<open>
  The theorem at one input for each of its three cases.
\<close>

theorem run_batch_configuration_errors_witness:
  "run_batch py_truediv ''out'' 2 demo_func quiet quiet [(''dt'', 1)] [] True None
     = ([], Some (RuntimeWarning ''No parameter ranges specified - nothing to do!''))
   \<and> run_batch py_truediv ''out'' 2 demo_func quiet quiet [(''mu_scale'', 1)] [(''mu'', [1, 2])]
        True None
     = ([], Some (ValueError ''Cannot both set mu_scale and vary mu!''))
   \<and> run_batch py_truediv ''out'' 2 demo_func quiet quiet [(''alpha_scale'', 1)]
        [(''alpha'', [1, 2])] True None
     = ([], Some (ValueError ''Cannot both set alpha_scale and vary alpha!''))"
proof -
  have a: "([]::real list dict) = []" by simp
  have b: "dict_in ''mu_scale'' [(''mu_scale'', 1::real)] \<and> dict_in ''mu'' [(''mu'', [1, 2::real])]"
    by (simp add: dict_in_def)
  have c: "dict_in ''alpha_scale'' [(''alpha_scale'', 1::real)]
         \<and> dict_in ''alpha'' [(''alpha'', [1, 2::real])]"
    by (simp add: dict_in_def)
  have c': "\<not> (dict_in ''mu_scale'' [(''alpha_scale'', 1::real)]
              \<and> dict_in ''mu'' [(''alpha'', [1, 2::real])])"
    by (simp add: dict_in_def)
  from a run_batch_configuration_errors
         [of "[]" py_truediv "''out''" 2 demo_func quiet quiet "[(''dt'', 1)]" True None]
  have 1: "run_batch py_truediv ''out'' 2 demo_func quiet quiet [(''dt'', 1)] [] True None
     = ([], Some (RuntimeWarning ''No parameter ranges specified - nothing to do!''))"
    by blast
  from b run_batch_configuration_errors
         [of "[(''mu'', [1, 2])]" py_truediv "''out''" 2 demo_func quiet quiet
             "[(''mu_scale'', 1)]" True None]
  have 2: "run_batch py_truediv ''out'' 2 demo_func quiet quiet [(''mu_scale'', 1)]
             [(''mu'', [1, 2])] True None
     = ([], Some (ValueError ''Cannot both set mu_scale and vary mu!''))"
    by blast
  from c run_batch_configuration_errors
         [of "[(''alpha'', [1, 2])]" py_truediv "''out''" 2 demo_func quiet quiet
             "[(''alpha_scale'', 1)]" True None]
  have 3: "run_batch py_truediv ''out'' 2 demo_func quiet quiet [(''alpha_scale'', 1)]
             [(''alpha'', [1, 2])] True None
     = ([], Some (ValueError ''Cannot both set alpha_scale and vary alpha!''))"
    using c' by simp
  from 1 2 3 show ?thesis by blast
qed

text \<open>
  Claim C4 as stated, for any combination of base parameters and ranges, fails where the
  base set holds both \<open>mu\<close> and \<open>mu_scale\<close>: the batch is accepted and a pool is created.
\<close>

theorem scale_and_raw_accepted_counterexample:
  "dict_in ''mu'' [(''mu'', 1::real), (''mu_scale'', 2)]
   \<and> dict_in ''mu_scale'' [(''mu'', 1::real), (''mu_scale'', 2)]
   \<and> snd (run_batch py_truediv ''out'' 2 demo_func quiet quiet [(''mu'', 1), (''mu_scale'', 2)]
            [(''dt'', [1])] True None) = None
   \<and> pools_created (fst (run_batch py_truediv ''out'' 2 demo_func quiet quiet
            [(''mu'', 1), (''mu_scale'', 2)] [(''dt'', [1])] True None)) = [1]"
proof -
  have run: "run_batch_param_list py_truediv [(''mu'', 1), (''mu_scale'', 2)] [(''dt'', [1])]
           = Inr [[(''mu'', 2), (''mu_scale'', 2), (''dt'', 1)]]"
    by (simp add: grid_eval)
  show ?thesis
    by (simp add: run_batch_def run demo_closed dict_in_def
          pools_created_append pools_created_concat pools_created_events_of)
qed

subsection \<open>The size of the pool\<close>

text \<open>
  Claim C10. The result of \<^verbatim>\<open>run_batch\<close> does not depend on its argument \<open>n_jobs\<close>, and
  the one pool it creates for a parameter list that is not empty has
  \<open>min (max 1 (3 * cpu_count div 4)) N\<close> processes, \<open>N\<close> being the number of tasks,
  whatever the workers and the writes do afterwards.
\<close>

theorem pool_size_ignores_n_jobs:
  "run_batch truediv outdir cpu_count func savez json_dump base_params ranges grid n_jobs
     = run_batch truediv outdir cpu_count func savez json_dump base_params ranges grid None
   \<and> (\<forall>param_list.
        run_batch_param_list truediv base_params ranges = Inr param_list \<and> param_list \<noteq> []
        \<longrightarrow> pools_created
              (fst (run_batch truediv outdir cpu_count func savez json_dump base_params ranges
                      grid n_jobs))
            = [min (max 1 (3 * cpu_count div 4)) (int (length param_list))])"
proof -
  have "pools_created
          (fst (run_batch truediv outdir cpu_count func savez json_dump base_params ranges
                  grid n_jobs))
        = [min (max 1 (3 * cpu_count div 4)) (int (length param_list))]"
    if r: "run_batch_param_list truediv base_params ranges = Inr param_list"
      and ne: "param_list \<noteq> []"
    for param_list
    using run_simulations_low_pools [OF ne, of outdir cpu_count func savez json_dump None]
    by (auto simp: run_batch_def r split: prod.splits)
  then show ?thesis by (simp add: run_batch_def)
qed

text \<open>
  The theorem at two tasks on two processors, with \<open>n_jobs = 64\<close>: one process.
\<close>

theorem pool_size_ignores_n_jobs_witness:
  "pools_created (fst (run_batch py_truediv ''out'' 2 demo_func quiet quiet [(''mu_scale'', 2)]
      [(''dt'', [1, 2])] True (Some 64))) = [1]"
proof -
  have run: "run_batch_param_list py_truediv [(''mu_scale'', 2)] [(''dt'', [1, 2])]
           = Inr [[(''mu_scale'', 2), (''dt'', 1), (''mu'', 2)],
                  [(''mu_scale'', 2), (''dt'', 2), (''mu'', 1)]]"
    by (simp add: grid_eval)
  from pool_size_ignores_n_jobs [of py_truediv "''out''" 2 demo_func quiet quiet
      "[(''mu_scale'', 2)]" "[(''dt'', [1, 2])]" True "Some 64"]
  have "\<forall>param_list.
        run_batch_param_list py_truediv [(''mu_scale'', 2)] [(''dt'', [1, 2])] = Inr param_list
          \<and> param_list \<noteq> []
        \<longrightarrow> pools_created
              (fst (run_batch py_truediv ''out'' 2 demo_func quiet quiet [(''mu_scale'', 2)]
                 [(''dt'', [1, 2])] True (Some 64)))
            = [min (max 1 (3 * 2 div 4)) (int (length param_list))]"
    by (rule conjunct2)
  with run have "pools_created
              (fst (run_batch py_truediv ''out'' 2 demo_func quiet quiet [(''mu_scale'', 2)]
                 [(''dt'', [1, 2])] True (Some 64)))
            = [min (max 1 (3 * 2 div 4))
                 (int (length [[(''mu_scale'', 2::real), (''dt'', 1), (''mu'', 2)],
                  [(''mu_scale'', 2), (''dt'', 2), (''mu'', 1)]]))]"
    by blast
  then show ?thesis by simp
qed

subsection \<open>The periodic write of the index\<close>

text \<open>
  The contents of the index file at its successive writes, where nothing raises: after
  the passes \<open>i\<close> with \<open>(i + 2) mod 10 = 0\<close>, when \<open>i + 1\<close> tasks are complete, and once
  at the end. So every periodic write holds \<open>9, 19, 29, ...\<close> entries, never more than
  there are tasks.
\<close>

lemma dumps_run_simulations_low:
  assumes "pl \<noteq> []"
    and ok: "\<And>p. p \<in> set pl \<Longrightarrow> \<exists>x. func p = Inr x"
    and sv: "\<And>f r. savez f r = None" and jd: "\<And>f ix. json_dump f ix = None"
  shows "dumps (fst (run_simulations_low outdir cpu_count func savez json_dump pl n_jobs))
       = map (\<lambda>i. map (entry_of outdir func pl) [0..<Suc i])
           (filter (\<lambda>i. (i + 2) mod 10 = 0) [0..<length pl])
         @ [map (entry_of outdir func pl) [0..<length pl]]"
  by (simp add: run_simulations_low_closed [OF assms] dumps_append dumps_concat)

lemma dump_sizes_run_simulations_low:
  assumes "pl \<noteq> []"
    and ok: "\<And>p. p \<in> set pl \<Longrightarrow> \<exists>x. func p = Inr x"
    and sv: "\<And>f r. savez f r = None" and jd: "\<And>f ix. json_dump f ix = None"
  shows "map length (dumps (fst (run_simulations_low outdir cpu_count func savez json_dump pl n_jobs)))
       = map Suc (filter (\<lambda>i. (i + 2) mod 10 = 0) [0..<length pl]) @ [length pl]"
  by (simp add: dumps_run_simulations_low [OF assms] comp_def)

lemma periodic_dump_sizes:
  assumes "pl \<noteq> []"
    and ok: "\<And>p. p \<in> set pl \<Longrightarrow> \<exists>x. func p = Inr x"
    and sv: "\<And>f r. savez f r = None" and jd: "\<And>f ix. json_dump f ix = None"
  shows "list_all (\<lambda>ix. length ix mod 10 = 9 \<and> length ix \<le> length pl)
           (butlast (dumps (fst (run_simulations_low outdir cpu_count func savez json_dump pl n_jobs))))"
proof -
  have "list_all (\<lambda>ix. length ix mod 10 = 9 \<and> length ix \<le> length pl)
          (map (\<lambda>i. map (entry_of outdir func pl) [0..<Suc i])
             (filter (\<lambda>i. (i + 2) mod 10 = 0) [0..<length pl]))"
    by (auto simp: list_all_iff) presburger
  then show ?thesis
    by (simp add: dumps_run_simulations_low [OF assms])
qed

lemma snapshots_after_closed:
  assumes "k \<le> length pl"
    and ok: "\<And>p. p \<in> set pl \<Longrightarrow> \<exists>x. func p = Inr x"
    and sv: "\<And>f r. savez f r = None" and jd: "\<And>f ix. json_dump f ix = None"
  shows "snapshots_after outdir func savez json_dump pl k
       = map Suc (filter (\<lambda>i. (i + 2) mod 10 = 0) [0..<k])"
proof -
  let ?st0 = "\<lparr>cur_i = 0, cur_index = [], cur_trace = ([] :: ('a, 'b) event list)\<rparr>"
  have "imap_loop outdir (outdir @ ''/index.json'') savez json_dump pl
          (map func (take k (drop 0 pl))) ?st0
      = (\<lparr>cur_i = 0 + k, cur_index = map (entry_of outdir func pl) [0..<0 + k],
              cur_trace = cur_trace ?st0 @ concat (map (events_of outdir func pl) [0..<0 + k])\<rparr>,
         None)"
    using assms(1) by (intro imap_loop_prefix ok sv jd) simp_all
  then show ?thesis
    by (simp add: snapshots_after_def take_map dumps_concat comp_def)
qed

text \<open>
  Claim C3 says that every periodic write holds a multiple of ten entries. On a batch of
  forty tasks the index file is written with 9, 19, 29 and 39 entries, and with all forty
  at the end; interrupted after 23 of the forty tasks, the batch leaves the snapshots of
  9 and of 19 entries. The counter is incremented before the test \<^verbatim>\<open>(i+1) % 10 == 0\<close>,
  while the message printed with each write announces \<open>i + 1\<close> completed tasks.
\<close>

theorem periodic_snapshot_off_by_one:
  "map length (dumps (fst (run_simulations_low ''out'' 4 all_fail quiet quiet
       (replicate 40 [(''dt'', 1)]) None)))
     = [9, 19, 29, 39, 40]
   \<and> snapshots_after ''out'' all_fail quiet quiet (replicate 40 [(''dt'', 1)]) 23 = [9, 19]"
proof -
  have ne: "replicate 40 [(''dt'', 1::real)] \<noteq> []" by simp
  have le: "23 \<le> length (replicate 40 [(''dt'', 1::real)])" by simp
  have f40: "filter (\<lambda>i. (i + 2) mod 10 = 0) [0..<40] = [8, 18, 28, 38::nat]"
    by code_simp
  have f23: "filter (\<lambda>i. (i + 2) mod 10 = 0) [0..<23] = [8, 18::nat]"
    by code_simp
  show ?thesis
    unfolding dump_sizes_run_simulations_low
        [where func = all_fail and savez = quiet and json_dump = quiet,
         OF ne all_fail_defined quiet_None quiet_None]
      snapshots_after_closed
        [where func = all_fail and savez = quiet and json_dump = quiet,
         OF le all_fail_defined quiet_None quiet_None]
      length_replicate f40 f23
    by simp
qed

subsection \<open>Completeness of the index\<close>

text \<open>
  What claim C6 says of the index holds with the key of the flag as the source spells it.
  A batch of \<open>N > 0\<close> parameter sets in which nothing raises completes, and the index it
  writes last, which is the list of the entries appended, has exactly \<open>N\<close> entries. The
  entry at position \<open>i\<close> carries the \<open>i\<close>-th parameter set under \<open>params\<close> and a boolean
  under the key \<open>succeded\<close>: \<open>True\<close> with the artifact's name under \<open>filename\<close> when the
  run returned a result, \<open>False\<close> with the empty string under \<open>error\<close> when it did not.
  The entries flagged \<open>True\<close> and those flagged \<open>False\<close> are \<open>N\<close> together.
\<close>

theorem index_complete:
  assumes "param_list \<noteq> []"
    and ok: "\<And>p. p \<in> set param_list \<Longrightarrow> \<exists>x. func p = Inr x"
    and sv: "\<And>f r. savez f r = None" and jd: "\<And>f ix. json_dump f ix = None"
  shows "\<exists>tr index.
           run_simulations_low outdir cpu_count func savez json_dump param_list n_jobs = (tr, None)
         \<and> last tr = JsonDump (outdir @ ''/index.json'') index
         \<and> appended tr = index
         \<and> length index = length param_list
         \<and> (\<forall>i<length param_list.
               map_of (index ! i) ''params'' = Some (EParams (param_list ! i))
             \<and> (case func (param_list ! i) of
                  Inr (Some r) \<Rightarrow> map_of (index ! i) ''succeded'' = Some (EBool True)
                          \<and> map_of (index ! i) ''filename''
                              = Some (EStr (outdir @ ''/results_'' @ str_nat i @ ''.npz''))
                | _ \<Rightarrow> map_of (index ! i) ''succeded'' = Some (EBool False)
                        \<and> map_of (index ! i) ''error'' = Some (EStr [])))
         \<and> count_flag ''succeded'' True index + count_flag ''succeded'' False index
             = length param_list"
proof -
  let ?index = "map (entry_of outdir func param_list) [0..<length param_list]"
  let ?tr = "fst (run_simulations_low outdir cpu_count func savez json_dump param_list n_jobs)"
  note closed = run_simulations_low_closed [OF assms]
  have run: "run_simulations_low outdir cpu_count func savez json_dump param_list n_jobs = (?tr, None)"
    by (simp add: closed)
  have lst: "last ?tr = JsonDump (outdir @ ''/index.json'') ?index"
    by (simp add: closed)
  have app: "appended ?tr = ?index"
    by (simp add: closed appended_append appended_concat)
  have each: "\<forall>i<length param_list.
               map_of (?index ! i) ''params'' = Some (EParams (param_list ! i))
             \<and> (case func (param_list ! i) of
                  Inr (Some r) \<Rightarrow> map_of (?index ! i) ''succeded'' = Some (EBool True)
                          \<and> map_of (?index ! i) ''filename''
                              = Some (EStr (outdir @ ''/results_'' @ str_nat i @ ''.npz''))
                | _ \<Rightarrow> map_of (?index ! i) ''succeded'' = Some (EBool False)
                        \<and> map_of (?index ! i) ''error'' = Some (EStr []))"
    by (auto simp: entry_of_def success_entry_def failure_entry_def results_filename_def
             split: sum.splits option.splits)
  have cnt: "count_flag ''succeded'' True ?index + count_flag ''succeded'' False ?index
             = length param_list"
    using count_flag_entries [of outdir func param_list "[0..<length param_list]"] by simp
  from run lst app each cnt show ?thesis
    by (intro exI [of _ ?tr] exI [of _ ?index]) simp
qed

text \<open>
  The theorem at the two sample parameter sets, the first of which succeeds.
\<close>

theorem index_complete_witness:
  "\<exists>tr index.
      run_simulations_low ''out'' 4 demo_func quiet quiet demo_params None = (tr, None)
    \<and> last tr = JsonDump ''out/index.json'' index
    \<and> length index = 2
    \<and> map_of (index ! 0) ''succeded'' = Some (EBool True)
    \<and> map_of (index ! 1) ''succeded'' = Some (EBool False)
    \<and> count_flag ''succeded'' True index + count_flag ''succeded'' False index = 2"
proof -
  from index_complete [where func = demo_func and savez = quiet and json_dump = quiet
      and outdir = "''out''" and cpu_count = 4 and n_jobs = None,
      OF demo_params_simps(1) demo_func_defined quiet_None quiet_None]
  obtain tr index where
    "run_simulations_low ''out'' 4 demo_func quiet quiet demo_params None = (tr, None)"
    "last tr = JsonDump (''out'' @ ''/index.json'') index"
    "length index = length demo_params"
    "\<forall>i<length demo_params.
               map_of (index ! i) ''params'' = Some (EParams (demo_params ! i))
             \<and> (case demo_func (demo_params ! i) of
                  Inr (Some r) \<Rightarrow> map_of (index ! i) ''succeded'' = Some (EBool True)
                          \<and> map_of (index ! i) ''filename''
                              = Some (EStr (''out'' @ ''/results_'' @ str_nat i @ ''.npz''))
                | _ \<Rightarrow> map_of (index ! i) ''succeded'' = Some (EBool False)
                        \<and> map_of (index ! i) ''error'' = Some (EStr []))"
    "count_flag ''succeded'' True index + count_flag ''succeded'' False index
             = length demo_params"
    by blast
  moreover from this(4) have "map_of (index ! 0) ''succeded'' = Some (EBool True)"
    "map_of (index ! 1) ''succeded'' = Some (EBool False)"
    by (auto simp: demo_func_simps demo_params_simps dest: spec [of _ 0] spec [of _ 1])
  ultimately show ?thesis
    by (intro exI [of _ tr] exI [of _ index]) (simp add: demo_params_simps)
qed

text \<open>
  Claim C6 names the flag \<open>succeeded\<close>. On the two sample parameter sets no entry of the
  index written has this key, the source misspelling it in both of its literals, so the
  entries with \<open>succeeded\<close> true and those with \<open>succeeded\<close> false are not \<open>N\<close> together.
\<close>

theorem index_flag_key_misspelled:
  "count_flag ''succeeded'' True
      (last (dumps (fst (run_simulations_low ''out'' 4 demo_func quiet quiet demo_params None))))
   + count_flag ''succeeded'' False
      (last (dumps (fst (run_simulations_low ''out'' 4 demo_func quiet quiet demo_params None))))
   \<noteq> length demo_params"
proof -
  have two: "[0..<length demo_params] = [0, 1]"
    by (simp add: demo_params_simps upt_rec)
  have fil: "filter (\<lambda>i. (i + 2) mod 10 = 0) [0, Suc 0] = []" by simp
  show ?thesis
    unfolding dumps_run_simulations_low
        [where func = demo_func and savez = quiet and json_dump = quiet,
         OF demo_params_simps(1) demo_func_defined quiet_None quiet_None] two
    by (simp add: fil count_flag_def entry_of_def demo_func_simps
        success_entry_def failure_entry_def demo_params_simps)
qed

subsection \<open>Submission order\<close>



section \<open>Properties of the run wrapper\<close>

text \<open>
  Claim C5, as amended. The wrapper returns the result of the run when the run returns
  one, with nothing printed. When the run raises an instance of \<^verbatim>\<open>Exception\<close> the wrapper
  prints the parameter set with the formatted traceback and returns \<^verbatim>\<open>None\<close>. An
  exception that is not an instance of \<^verbatim>\<open>Exception\<close> leaves the wrapper.
\<close>

theorem simulation_wrapper_isolation:
  "(call_with_kwargs run params kwargs = Inr result \<longrightarrow>
      simulation_wrapper run format_exc params kwargs = ([], Inr (Some result)))
   \<and> (call_with_kwargs run params kwargs = Inl e \<and> is_Exception e \<longrightarrow>
      simulation_wrapper run format_exc params kwargs = ([(params, format_exc e)], Inr None))
   \<and> (call_with_kwargs run params kwargs = Inl e \<and> \<not> is_Exception e \<longrightarrow>
      simulation_wrapper run format_exc params kwargs = ([], Inl e))"
  by (simp add: simulation_wrapper_def)

text \<open>
  The theorem at a run that returns, at a run that divides by \<open>dt = 0\<close>, and at a run
  interrupted from the keyboard.
\<close>

theorem simulation_wrapper_isolation_witness:
  "simulation_wrapper demo_run exc_name [(''dt'', 1)] [] = ([], Inr (Some [(''interp_errors'', [1])]))
   \<and> simulation_wrapper demo_run exc_name [(''dt'', 0)] []
       = ([([(''dt'', 0)], ''ZeroDivisionError'')], Inr None)
   \<and> simulation_wrapper interrupted_run exc_name [(''dt'', 1)] [] = ([], Inl KeyboardInterrupt)"
proof -
  have a: "call_with_kwargs demo_run [(''dt'', 1)] [] = Inr [(''interp_errors'', [1])]"
    by (simp add: call_with_kwargs_def demo_run_def py_truediv_def bind_err_def dict_in_def)
  have b: "call_with_kwargs demo_run [(''dt'', 0)] [] = Inl ZeroDivisionError
           \<and> is_Exception ZeroDivisionError"
    by (simp add: call_with_kwargs_def demo_run_def py_truediv_def bind_err_def dict_in_def)
  have c: "call_with_kwargs interrupted_run [(''dt'', 1)] [] = Inl KeyboardInterrupt
           \<and> \<not> is_Exception KeyboardInterrupt"
    by (simp add: call_with_kwargs_def interrupted_run_def dict_in_def)
  from a simulation_wrapper_isolation
    [of demo_run "[(''dt'', 1)]" "[]" "[(''interp_errors'', [1])]" exc_name]
  have 1: "simulation_wrapper demo_run exc_name [(''dt'', 1)] []
         = ([], Inr (Some [(''interp_errors'', [1])]))"
    by blast
  from b simulation_wrapper_isolation
    [of demo_run "[(''dt'', 0)]" "[]" _ exc_name ZeroDivisionError]
  have 2: "simulation_wrapper demo_run exc_name [(''dt'', 0)] []
       = ([([(''dt'', 0)], exc_name ZeroDivisionError)], Inr None)"
    by blast
  from c simulation_wrapper_isolation
    [of interrupted_run "[(''dt'', 1)]" "[]" _ exc_name KeyboardInterrupt]
  have 3: "simulation_wrapper interrupted_run exc_name [(''dt'', 1)] [] = ([], Inl KeyboardInterrupt)"
    by blast
  from 1 2 3 show ?thesis by simp
qed

text \<open>
  Claim C5 as stated, that no exception raised inside the run is ever propagated, fails
  for \<^verbatim>\<open>KeyboardInterrupt\<close>, which \<^verbatim>\<open>except Exception\<close> does not catch.
\<close>

theorem simulation_wrapper_propagates_counterexample:
  "simulation_wrapper interrupted_run exc_name [(''dt'', 1)] [] = ([], Inl KeyboardInterrupt)"
  by (simp add: simulation_wrapper_def call_with_kwargs_def interrupted_run_def dict_in_def)

section \<open>Properties of the simulation loop\<close>

lemma append_param_errors_Inr:
  "append_param_errors S asm tru d = Inr d' \<Longrightarrow>
     map fst d' = map fst d
   \<and> (list_all (\<lambda>(p, arr). length arr = n) d \<longrightarrow> list_all (\<lambda>(p, arr). length arr = Suc n) d')"
proof (induction d arbitrary: d')
  case Nil
  then show ?case by simp
next
  case (Cons a d)
  obtain p arr where a: "a = (p, arr)" by (cases a)
  from Cons.prems a obtain x y rest1 where
    rest: "append_param_errors S asm tru d = Inr rest1"
    and d': "d' = (p, arr @ [\<bar>x - y\<bar>]) # rest1"
    by (auto simp: bind_err_Inr_iff)
  from Cons.IH [OF rest] a d' show ?case by simp
qed

lemma sim_step_inv:
  assumes "sim_step S projector st = Inr st'" and "series_inv n st"
  shows "series_inv (Suc n) st' \<and> map fst (param_errors st') = map fst (param_errors st)"
proof -
  from assms(1) obtain perr diff err tru1 asm2 where
    pe: "append_param_errors S (assimilator st) (true_ks st) (param_errors st) = Inr perr"
    and st': "st' = \<lparr>true_ks = tru1, assimilator = asm2,
            interp_errors = interp_errors st @ [l2_norm diff],
            true_errors = true_errors st @ [err],
            param_errors = perr\<rparr>"
    unfolding sim_step_def bind_err_Inr_iff by blast
  from append_param_errors_Inr [OF pe, of n] assms(2) st' show ?thesis
    by (simp add: series_inv_def)
qed

lemma sim_loop_inv:
  "sim_loop S projector k st = Inr st' \<Longrightarrow> series_inv n st \<Longrightarrow>
     series_inv (n + k) st' \<and> map fst (param_errors st') = map fst (param_errors st)"
proof (induction k arbitrary: st n)
  case 0
  then show ?case by simp
next
  case (Suc k)
  from Suc.prems(1) obtain st1 where
    s1: "sim_step S projector st = Inr st1" and l: "sim_loop S projector k st1 = Inr st'"
    by (auto simp: bind_err_Inr_iff)
  from sim_step_inv [OF s1 Suc.prems(2)] Suc.IH [OF l, of "Suc n"] show ?case by simp
qed

lemma list_all_dict_set:
  "list_all P d \<Longrightarrow> P (k, v) \<Longrightarrow> list_all P (dict_set d k v)"
  unfolding dict_set_def by (induction d) auto

lemma keys_dict_set: "fst ` set (dict_set d k v) = insert k (fst ` set d)"
  by (simp add: dict_set_def dom_update)

lemma param_errors0_inv:
  "list_all (\<lambda>(p, arr). length arr = 0) d \<Longrightarrow>
     list_all (\<lambda>(p, arr). length arr = 0) (foldl (\<lambda>d p. dict_set d p []) d ps)
   \<and> fst ` set (foldl (\<lambda>d p. dict_set d p []) d ps) = fst ` set d \<union> set ps"
proof (induction ps arbitrary: d)
  case Nil
  then show ?case by simp
next
  case (Cons p ps)
  from Cons.prems have "list_all (\<lambda>(p, arr). length arr = 0) (dict_set d p [])"
    by (rule list_all_dict_set) simp
  from Cons.IH [OF this] show ?case by (auto simp: keys_dict_set)
qed

lemma nat_int_of_float: "nat (int_of_float q) = nat \<lfloor>q\<rfloor>"
proof (cases "0 \<le> q")
  case True
  then show ?thesis by (simp add: int_of_float_def)
next
  case False
  then have "\<lceil>q\<rceil> \<le> 0" "\<lfloor>q\<rfloor> \<le> 0"
    by (simp_all add: ceiling_le_iff floor_le_iff)
  with False show ?thesis by (simp add: int_of_float_def)
qed

text \<open>
  Claim C8, as amended. When a run returns a result, the quotient \<open>max_t / dt\<close> was
  computed, the loop made exactly \<open>max 0 (floor (max_t / dt))\<close> passes, that is
  \<open>floor (max_t / dt)\<close> for a quotient that is not negative and none for a negative one, and
  every series of the result, that is \<open>interp_errors\<close>, \<open>true_errors\<close> and the series of
  each estimated parameter, has exactly this length. The keys of the result are the
  estimated parameters and the two error series.
\<close>

theorem run_simulation_series_lengths:
  assumes "run_simulation S new_KS new_KSAssim truediv initial_guess dt max_t modes = Inr result"
  shows "\<exists>q tru asm st.
           truediv max_t dt = Inr q
         \<and> sim_loop S (\<lambda>spec. fourier_projector spec modes) (nat \<lfloor>q\<rfloor>)
             \<lparr>true_ks = tru, assimilator = asm, interp_errors = [], true_errors = [],
              param_errors = foldl (\<lambda>d p. dict_set d p []) [] (map fst initial_guess)\<rparr> = Inr st
         \<and> map_of result ''interp_errors'' = Some (interp_errors st)
         \<and> map_of result ''true_errors'' = Some (true_errors st)
         \<and> (\<forall>(name, series)\<in>set result. length series = nat \<lfloor>q\<rfloor>)
         \<and> fst ` set result = fst ` set initial_guess \<union> {''interp_errors'', ''true_errors''}"
proof -
  let ?pe0 = "foldl (\<lambda>d p. dict_set d p ([]::real list)) [] (map fst initial_guess)"
  let ?proj = "\<lambda>spec. fourier_projector spec modes"
  from assms obtain tru asm q st where
    q: "truediv max_t dt = Inr q"
    and loop: "sim_loop S ?proj (nat (int_of_float q))
             \<lparr>true_ks = tru, assimilator = asm, interp_errors = [], true_errors = [],
              param_errors = ?pe0\<rparr> = Inr st"
    and res: "result = dict_set (dict_set (param_errors st) ''interp_errors'' (interp_errors st))
                 ''true_errors'' (true_errors st)"
    unfolding run_simulation_def Let_def bind_err_Inr_iff by blast
  let ?st0 = "\<lparr>true_ks = tru, assimilator = asm, interp_errors = [], true_errors = [],
              param_errors = ?pe0\<rparr>"
  have pe0: "list_all (\<lambda>(p, arr). length arr = 0) ?pe0"
    and keys0: "fst ` set ?pe0 = set (map fst initial_guess)"
    using param_errors0_inv [of "[]" "map fst initial_guess"] by auto
  then have inv0: "series_inv 0 ?st0" by (simp add: series_inv_def)
  from sim_loop_inv [OF loop inv0]
  have inv: "series_inv (nat (int_of_float q)) st"
    and keys: "map fst (param_errors st) = map fst ?pe0" by simp_all
  from inv have all: "list_all (\<lambda>(p, arr). length arr = nat \<lfloor>q\<rfloor>) result"
    unfolding res
    by (intro list_all_dict_set) (simp_all add: series_inv_def nat_int_of_float)
  then have lens: "\<forall>(name, series)\<in>set result. length series = nat \<lfloor>q\<rfloor>"
    by (simp add: list_all_iff)
  from keys have "fst ` set (param_errors st) = fst ` set ?pe0"
    by (metis set_map)
  with keys0 have ks: "fst ` set result = fst ` set initial_guess \<union> {''interp_errors'', ''true_errors''}"
    unfolding res by (auto simp: keys_dict_set)
  have ie: "map_of result ''interp_errors'' = Some (interp_errors st)"
    and te: "map_of result ''true_errors'' = Some (true_errors st)"
    unfolding res by (simp_all add: map_of_dict_set)
  from q loop ie te lens ks show ?thesis
    unfolding nat_int_of_float by blast
qed

text \<open>
  The theorem on the trivial solver with \<open>max_t = 1\<close> and \<open>dt = 1/2\<close>: two passes, and
  three series of two samples.
\<close>

theorem run_simulation_series_lengths_witness:
  "run_simulation demo_solver (Inr [1, 0]) demo_KSAssim py_truediv [(''lambda2'', 2::real)]
       (1 / 2) 1 21
     = Inr [(''lambda2'', [1, 1]), (''interp_errors'', [0, 0]), (''true_errors'', [0, 0])]
   \<and> py_truediv 1 (1 / 2) = Inr 2"
proof -
  have proj: "fourier_projector [1, 0] 21 = Inr [1 / 2, 1 / 2]"
    by (simp add: fourier_projector_def zero_from_def irfft_def Let_def upt_rec)
  have step: "sim_step demo_solver (\<lambda>spec. fourier_projector spec 21)
                \<lparr>true_ks = [1, 0], assimilator = [1, 0], interp_errors = ie, true_errors = te,
                 param_errors = [(''lambda2'', pe)]\<rparr>
            = Inr \<lparr>true_ks = [1, 0], assimilator = [1, 0], interp_errors = ie @ [0],
                 true_errors = te @ [0], param_errors = [(''lambda2'', pe @ [1])]\<rparr>"
    for ie te pe
    by (simp add: sim_step_def demo_solver_def proj bind_err_def np_sub_def l2_norm_def)
  have q: "py_truediv 1 (1 / 2) = Inr 2" by (simp add: py_truediv_def)
  have two: "nat (int_of_float 2) = Suc (Suc 0)" by (simp add: int_of_float_def)
  have run: "run_simulation demo_solver (Inr [1, 0]) demo_KSAssim py_truediv [(''lambda2'', 2::real)]
       (1 / 2) 1 21
     = Inr [(''lambda2'', [1, 1]), (''interp_errors'', [0, 0]), (''true_errors'', [0, 0])]"
    by (simp add: run_simulation_def demo_KSAssim_def q two step bind_err_def dict_set_def)
  from run_simulation_series_lengths [OF run] have
    "\<exists>q. py_truediv 1 (1 / 2) = Inr q" by blast
  with run q show ?thesis by simp
qed

text \<open>
  Claim C8 as stated, that the series have length \<open>floor (max_t / dt)\<close> in every
  successful run, fails where the quotient is negative: with \<open>max_t = 1\<close> and
  \<open>dt = - 1/2\<close> the run succeeds with empty series, and the floor is \<open>- 2\<close>.
\<close>

theorem negative_quotient_counterexample:
  "run_simulation demo_solver (Inr [1, 0]) demo_KSAssim py_truediv [(''lambda2'', 2::real)]
       (- (1 / 2)) 1 21
     = Inr [(''lambda2'', []), (''interp_errors'', []), (''true_errors'', [])]
   \<and> py_truediv 1 (- (1 / 2)) = Inr (- 2)
   \<and> \<lfloor>(1::real) / (- (1 / 2))\<rfloor> = - 2"
proof -
  have q: "py_truediv 1 (- (1 / 2)) = Inr (- 2)" by (simp add: py_truediv_def)
  have zero: "nat (int_of_float (- 2)) = 0" by (simp add: int_of_float_def)
  have run: "run_simulation demo_solver (Inr [1, 0]) demo_KSAssim py_truediv
       [(''lambda2'', 2::real)] (- (1 / 2)) 1 21
     = Inr [(''lambda2'', []), (''interp_errors'', []), (''true_errors'', [])]"
    unfolding run_simulation_def Let_def q
    by (simp add: demo_KSAssim_def zero bind_err_def dict_set_def)
  have fl: "\<lfloor>(1::real) / (- (1 / 2))\<rfloor> = - 2" by simp
  from run q fl show ?thesis by blast
qed

section \<open>Properties of the projection\<close>

lemma length_zero_from [simp]: "length (zero_from spec modes) = length spec"
  by (auto simp: zero_from_def Let_def)

lemma zero_from_idem: "zero_from (zero_from spec modes) modes = zero_from spec modes"
proof -
  let ?start = "nat (if modes < 0 then max 0 (int (length spec) + modes) else min modes (int (length spec)))"
  have le: "?start \<le> length spec" by auto
  have z: "zero_from spec modes = take ?start spec @ replicate (length spec - ?start) 0"
    by (simp add: zero_from_def Let_def)
  have "zero_from (zero_from spec modes) modes
      = take ?start (zero_from spec modes) @ replicate (length spec - ?start) 0"
    by (simp add: zero_from_def [of "zero_from spec modes"] Let_def)
  also have "take ?start (zero_from spec modes) = take ?start spec"
    using le by (simp add: z)
  finally show ?thesis by (simp add: z)
qed

lemma irfft_length: "irfft a = Inr y \<Longrightarrow> length y = 2 * (length a - 1) \<and> 2 \<le> length a"
  by (auto simp: irfft_def Let_def split: if_splits)

lemma irfft_defined: "2 \<le> length a \<Longrightarrow> \<exists>y. irfft a = Inr y"
  by (simp add: irfft_def Let_def)

lemma fourier_projector_length:
  "fourier_projector spec modes = Inr y \<Longrightarrow> length y = 2 * (length spec - 1) \<and> 2 \<le> length spec"
  using irfft_length [of "zero_from spec modes" y] by (simp add: fourier_projector_def)

lemma fourier_projector_defined: "2 \<le> length spec \<Longrightarrow> \<exists>y. fourier_projector spec modes = Inr y"
  using irfft_defined [of "zero_from spec modes"] by (simp add: fourier_projector_def)

text \<open>
  Claim C9, as amended. Zeroing the coefficients from index \<open>modes\<close> on is idempotent, for
  every array and every mode count, and the projection of an array is the projection of
  its truncation.
\<close>

theorem truncation_idempotent:
  "zero_from (zero_from spec modes) modes = zero_from spec modes
   \<and> fourier_projector (zero_from spec modes) modes = fourier_projector spec modes"
  by (simp add: zero_from_idem fourier_projector_def)

text \<open>
  The theorem at three coefficients and one retained mode.
\<close>

theorem truncation_idempotent_witness:
  "zero_from [1, 2, 3] 1 = [1, 0, 0]
   \<and> zero_from (zero_from [1, 2, 3] 1) 1 = [1, 0, 0]
   \<and> fourier_projector (zero_from [1, 2, 3] 1) 1 = fourier_projector [1, 2, 3] 1"
proof -
  have "zero_from [1, 2, 3] 1 = [1, 0, 0]"
    by (simp add: zero_from_def)
  with truncation_idempotent [of "[1, 2, 3]" 1] show ?thesis by simp
qed

text \<open>
  The projection itself returns samples in physical space, \<open>2 (m - 1)\<close> of them for \<open>m\<close>
  coefficients. Applied to its own output it reads these samples as coefficients, and
  returns \<open>2 (2 (m - 1) - 1)\<close> samples: from three coefficients on, the two results differ
  in length. On two coefficients they have the same length and differ in value.
\<close>

lemma project_twice_differs:
  assumes "3 \<le> length spec"
  shows "project_twice spec modes \<noteq> fourier_projector spec modes"
proof
  assume eq: "project_twice spec modes = fourier_projector spec modes"
  from assms fourier_projector_defined [of spec modes] obtain y where
    y: "fourier_projector spec modes = Inr y" by auto
  from fourier_projector_length [OF y] have ly: "length y = 2 * (length spec - 1)" by simp
  from eq y have "fourier_projector (map complex_of_real y) modes = Inr y"
    by (simp add: project_twice_def bind_err_def)
  from fourier_projector_length [OF this] have "length y = 2 * (length y - 1)" by simp
  with ly assms show False by simp
qed

lemma fourier_projector_example:
  "fourier_projector [1, 0] 21 = Inr [1 / 2, 1 / 2]"
  "project_twice [1, 0] 21 = Inr [1 / 2, 0]"
  by (simp_all add: project_twice_def bind_err_def fourier_projector_def zero_from_def irfft_def
        Let_def upt_rec)

text \<open>
  Claim C9 as stated, that projecting twice is projecting once, fails at the three
  coefficients \<open>1, 0, 0\<close> with the default 21 modes.
\<close>

theorem projection_not_idempotent_counterexample:
  "project_twice [1, 0, 0] 21 \<noteq> fourier_projector [1, 0, 0] 21"
  by (rule project_twice_differs) simp

end
